theory Spec2Isabelle
  imports Complex_Main "HOL-Library.Sublist"
begin

section \<open>JavaScript strings\<close>

text \<open>
  A string of the program is a list of code units; the model covers the code units below
  256, one \<^typ>\<open>char\<close> each. The helpers below are the string methods of the
  ECMAScript library that \<^verbatim>\<open>AIChatPanel\<close> calls.
\<close>

definition LF :: char where
  "LF = CHR 0x0A"

definition CR :: char where
  "CR = CHR 0x0D"

text \<open>White space and line terminators, as \<^verbatim>\<open>String.prototype.trim\<close> and the
  regular expression class \<^verbatim>\<open>\s\<close> see them: TAB, LF, VT, FF, CR, SP and NBSP.\<close>

definition is_space :: "char \<Rightarrow> bool" where
  "is_space c = (c = CHR 0x09 \<or> c = CHR 0x0A \<or> c = CHR 0x0B \<or> c = CHR 0x0C
     \<or> c = CHR 0x0D \<or> c = CHR 0x20 \<or> c = CHR 0xA0)"

text \<open>The characters that \<^verbatim>\<open>.\<close> of a regular expression does not match.\<close>

definition is_line_terminator :: "char \<Rightarrow> bool" where
  "is_line_terminator c = (c = CHR 0x0A \<or> c = CHR 0x0D)"

definition trim :: "string \<Rightarrow> string" where
  "trim s = rev (dropWhile is_space (rev (dropWhile is_space s)))"

definition startsWith :: "string \<Rightarrow> string \<Rightarrow> bool" where
  "startsWith s p = prefix p s"

definition endsWith :: "string \<Rightarrow> string \<Rightarrow> bool" where
  "endsWith s p = suffix p s"

text \<open>\<^verbatim>\<open>s.slice(a, b)\<close> for indices that are not negative.\<close>

definition slice :: "string \<Rightarrow> nat \<Rightarrow> nat \<Rightarrow> string" where
  "slice s a b = take (b - a) (drop a s)"

text \<open>The first position in \<open>s\<close> where \<open>sub\<close> starts, if there is one.\<close>

fun find_sub :: "string \<Rightarrow> string \<Rightarrow> nat option" where
  "find_sub sub [] = (if sub = [] then Some 0 else None)"
| "find_sub sub (c # cs) =
     (if prefix sub (c # cs) then Some 0 else map_option Suc (find_sub sub cs))"

text \<open>\<^verbatim>\<open>s.indexOf(sub, from)\<close>; \<open>None\<close> is the result \<^verbatim>\<open>-1\<close>.\<close>

definition indexOf :: "string \<Rightarrow> string \<Rightarrow> nat \<Rightarrow> nat option" where
  "indexOf s sub from =
     map_option (\<lambda>k. k + min from (length s)) (find_sub sub (drop from s))"

text \<open>\<^verbatim>\<open>s.split(c)\<close> for a separator of one character.\<close>

fun split_on :: "char \<Rightarrow> string \<Rightarrow> string list" where
  "split_on c [] = [[]]"
| "split_on c (x # xs) =
     (if x = c then [] # split_on c xs
      else (case split_on c xs of [] \<Rightarrow> [[x]] | l # ls \<Rightarrow> (x # l) # ls))"

text \<open>\<^verbatim>\<open>s.split(/\r?\n/)\<close>: a line feed ends a line, and a carriage return just
  before it belongs to the separator.\<close>

fun split_lines :: "string \<Rightarrow> string list" where
  "split_lines [] = [[]]"
| "split_lines (x # xs) =
     (if x = LF then [] # split_lines xs
      else (case xs of
              [] \<Rightarrow> [[x]]
            | y # ys \<Rightarrow>
                if x = CR \<and> y = LF then [] # split_lines ys
                else (case split_lines xs of [] \<Rightarrow> [[x]] | l # ls \<Rightarrow> (x # l) # ls)))"

declare split_lines.simps [simp del]

text \<open>\<^verbatim>\<open>toLowerCase\<close> on one code unit below 256: the letters A to Z, and the
  letters from U+00C0 to U+00DE without the multiplication sign.\<close>

definition lower_char :: "char \<Rightarrow> char" where
  "lower_char c =
     (let n = (of_char c :: nat)
      in if (65 \<le> n \<and> n \<le> 90) \<or> (192 \<le> n \<and> n \<le> 222 \<and> n \<noteq> 215)
         then char_of (n + 32) else c)"

definition toLowerCase :: "string \<Rightarrow> string" where
  "toLowerCase s = map lower_char s"

text \<open>The canonical form a regular expression with the flag \<^verbatim>\<open>i\<close> (and without
  \<^verbatim>\<open>u\<close>) compares characters in: the upper case of the letters a to z; a character
  outside ASCII never becomes equal to an ASCII one.\<close>

definition canon_char :: "char \<Rightarrow> char" where
  "canon_char c =
     (let n = (of_char c :: nat)
      in if 97 \<le> n \<and> n \<le> 122 then char_of (n - 32) else c)"

text \<open>\<^verbatim>\<open>/lit/i.test(s)\<close> for a pattern of literal ASCII characters: \<open>lit\<close> occurs
  somewhere in \<open>s\<close>, letter case ignored.\<close>

definition test_literal_i :: "string \<Rightarrow> string \<Rightarrow> bool" where
  "test_literal_i lit s = (find_sub (map canon_char lit) (map canon_char s) \<noteq> None)"

text \<open>\<^verbatim>\<open>/^lit$/i.test(s)\<close>: without the flag \<^verbatim>\<open>m\<close> the anchors are the two
  ends of the string, so \<open>s\<close> is \<open>lit\<close> up to letter case.\<close>

definition test_exact_i :: "string \<Rightarrow> string \<Rightarrow> bool" where
  "test_exact_i lit s = (map canon_char s = map canon_char lit)"

section \<open>JSON values and the runtime\<close>

datatype json =
    JNull
  | JBool bool
  | JNumber rat
  | JString string
  | JArray "json list"
  | JObject "(string \<times> json) list"

text \<open>A value that may be \<^verbatim>\<open>undefined\<close> is a \<^typ>\<open>json option\<close>, with
  \<open>None\<close> for \<^verbatim>\<open>undefined\<close>.\<close>

fun truthy :: "json option \<Rightarrow> bool" where
  "truthy None = False"
| "truthy (Some JNull) = False"
| "truthy (Some (JBool b)) = b"
| "truthy (Some (JNumber n)) = (n \<noteq> 0)"
| "truthy (Some (JString s)) = (s \<noteq> [])"
| "truthy (Some (JArray xs)) = True"
| "truthy (Some (JObject kvs)) = True"

text \<open>\<^verbatim>\<open>v.key\<close> on a value that is neither \<^verbatim>\<open>null\<close> nor \<^verbatim>\<open>undefined\<close>, for
  the property names the program reads (none of them is a property of a string, an array or
  a prototype). \<^verbatim>\<open>JSON.parse\<close> keeps the last of two equal keys.\<close>

fun get_prop :: "json \<Rightarrow> string \<Rightarrow> json option" where
  "get_prop (JObject kvs) k = map_of (rev kvs) k"
| "get_prop v k = None"

text \<open>\<^verbatim>\<open>v[0]\<close> on a value that is neither \<^verbatim>\<open>null\<close> nor \<^verbatim>\<open>undefined\<close>.\<close>

fun index0 :: "json \<Rightarrow> json option" where
  "index0 (JArray xs) = (case xs of [] \<Rightarrow> None | x # _ \<Rightarrow> Some x)"
| "index0 (JString s) = (case s of [] \<Rightarrow> None | c # _ \<Rightarrow> Some (JString [c]))"
| "index0 (JObject kvs) = map_of (rev kvs) ''0''"
| "index0 v = None"

text \<open>The optional chaining \<^verbatim>\<open>x?.key\<close> and \<^verbatim>\<open>x?.[0]\<close>.\<close>

definition opt_prop :: "json option \<Rightarrow> string \<Rightarrow> json option" where
  "opt_prop x k = (case x of None \<Rightarrow> None | Some JNull \<Rightarrow> None | Some v \<Rightarrow> get_prop v k)"

definition opt_index0 :: "json option \<Rightarrow> json option" where
  "opt_index0 x = (case x of None \<Rightarrow> None | Some JNull \<Rightarrow> None | Some v \<Rightarrow> index0 v)"

text \<open>
  What the program takes from the JavaScript engine: \<^verbatim>\<open>JSON.parse\<close> (\<open>None\<close> when it
  throws), the decimal text of a number, and the texts \<^verbatim>\<open>String(err)\<close> of two
  exceptions: the \<^verbatim>\<open>TypeError\<close> that reading a property of \<^verbatim>\<open>null\<close> throws
  (for the name of the property), and the \<^verbatim>\<open>TypeError\<close> that the conversion of an
  object to a string throws when the object has no usable \<^verbatim>\<open>toString\<close>.
\<close>

record runtime =
  JSON_parse :: "string \<Rightarrow> json option"
  Number_toString :: "rat \<Rightarrow> string"
  TypeError_text :: "string \<Rightarrow> string"
  ConversionError_text :: string

fun join_with :: "string \<Rightarrow> string list \<Rightarrow> string" where
  "join_with sep [] = []"
| "join_with sep [x] = x"
| "join_with sep (x # y # ys) = x @ sep @ join_with sep (y # ys)"

text \<open>
  The conversion of a JSON value \<open>v\<close> to a string, as in \<^verbatim>\<open>s += v\<close> and in the
  assignment of \<open>v\<close> to a string attribute; \<open>None\<close> when it throws a
  \<^verbatim>\<open>TypeError\<close>. An object made by \<^verbatim>\<open>JSON.parse\<close> is converted by the method
  \<^verbatim>\<open>toString\<close> that it inherits, unless it has a key \<^verbatim>\<open>toString\<close> of its own: the
  value under that key is not a function, and the conversion throws. An array is converted
  by joining its converted elements, \<^verbatim>\<open>null\<close> giving the empty string.
\<close>

fun ToString :: "runtime \<Rightarrow> json \<Rightarrow> string option" where
  "ToString rt JNull = Some ''null''"
| "ToString rt (JBool b) = Some (if b then ''true'' else ''false'')"
| "ToString rt (JNumber n) = Some (Number_toString rt n)"
| "ToString rt (JString s) = Some s"
| "ToString rt (JArray xs) =
     (let parts = map (\<lambda>v. if v = JNull then Some [] else ToString rt v) xs
      in if list_ex (\<lambda>p. p = None) parts then None
         else Some (join_with '','' (map the parts)))"
| "ToString rt (JObject kvs) =
     (if list_ex (\<lambda>kv. fst kv = ''toString'') kvs then None else Some ''[object Object]'')"

section \<open>Messages\<close>

datatype role = User | Assistant

datatype msg_type = Explanation | Hint | Question | Warning

record message =
  msg_id :: string
  msg_role :: role
  msg_content :: string
  msg_type :: "msg_type option"

section \<open>The stream ingestor of streamChat\<close>

record stream_state =
  textBuffer :: string
  assistantContent :: string
  shown :: "message list"

definition strip_cr :: "string \<Rightarrow> string" where
  "strip_cr line = (if endsWith line [CR] then butlast line else line)"

text \<open>The body of the \<^verbatim>\<open>try\<close> up to the test of \<open>content\<close>: \<open>None\<close> when
  \<^verbatim>\<open>JSON.parse\<close> throws or \<open>parsed\<close> is \<^verbatim>\<open>null\<close>, whose property
  \<^verbatim>\<open>choices\<close> cannot be read.\<close>

definition parse_delta :: "runtime \<Rightarrow> string \<Rightarrow> json option option" where
  "parse_delta rt jsonStr =
     (case JSON_parse rt jsonStr of
        None \<Rightarrow> None
      | Some JNull \<Rightarrow> None
      | Some parsed \<Rightarrow>
          Some (opt_prop (opt_prop (opt_index0 (get_prop parsed ''choices'')) ''delta'') ''content''))"

text \<open>The update of the message list in the read loop.\<close>

definition show_partial :: "string \<Rightarrow> string \<Rightarrow> message list \<Rightarrow> message list" where
  "show_partial assistantId content prev =
     (if prev \<noteq> [] \<and> msg_role (last prev) = Assistant \<and> msg_id (last prev) = assistantId
      then map (\<lambda>m. if msg_id m = assistantId then m\<lparr>msg_content := content\<rparr> else m) prev
      else prev @ [\<lparr>msg_id = assistantId, msg_role = Assistant, msg_content = content,
                     msg_type = Some Explanation\<rparr>])"

text \<open>The update of the message list in the final flush.\<close>

definition show_final :: "string \<Rightarrow> string \<Rightarrow> message list \<Rightarrow> message list" where
  "show_final assistantId content prev =
     (if prev \<noteq> [] \<and> msg_role (last prev) = Assistant \<and> msg_id (last prev) = assistantId
      then butlast prev @ [(last prev)\<lparr>msg_content := content\<rparr>]
      else prev)"

text \<open>The inner \<^verbatim>\<open>while\<close> of the read loop, on the buffer after a chunk was added.
  The \<^verbatim>\<open>catch\<close> is reached from \<^verbatim>\<open>JSON.parse\<close>, from the read of \<open>choices\<close>, and
  from \<^verbatim>\<open>assistantContent += content\<close> when \<open>content\<close> cannot be converted.\<close>

function processLines :: "runtime \<Rightarrow> string \<Rightarrow> stream_state \<Rightarrow> stream_state" where
  "processLines rt assistantId st =
     (case indexOf (textBuffer st) [LF] 0 of
        None \<Rightarrow> st
      | Some newlineIndex \<Rightarrow>
          (let line = strip_cr (slice (textBuffer st) 0 newlineIndex);
               st1 = st\<lparr>textBuffer := drop (newlineIndex + 1) (textBuffer st)\<rparr>
           in if startsWith line '':'' \<or> trim line = [] then processLines rt assistantId st1
              else if \<not> startsWith line ''data: '' then processLines rt assistantId st1
              else (let jsonStr = trim (drop 6 line)
                    in if jsonStr = ''[DONE]'' then st1
                       else (case parse_delta rt jsonStr of
                               None \<Rightarrow> st1\<lparr>textBuffer := line @ [LF] @ textBuffer st1\<rparr>
                             | Some content \<Rightarrow>
                                 if truthy content
                                 then (case ToString rt (the content) of
                                         None \<Rightarrow> st1\<lparr>textBuffer := line @ [LF] @ textBuffer st1\<rparr>
                                       | Some added \<Rightarrow>
                                           (let c = assistantContent st1 @ added
                                            in processLines rt assistantId
                                                 (st1\<lparr>assistantContent := c,
                                                      shown := show_partial assistantId c (shown st1)\<rparr>)))
                                 else processLines rt assistantId st1))))"
  by pat_completeness auto

termination processLines
proof -
  have bound: "find_sub sub s = Some k \<Longrightarrow> k + length sub \<le> length s" for sub s k
  proof (induction s arbitrary: k)
    case Nil
    then show ?case by (simp split: if_splits)
  next
    case (Cons c cs)
    show ?case
    proof (cases "prefix sub (c # cs)")
      case True
      with Cons.prems show ?thesis by (auto dest: prefix_length_le)
    next
      case False
      with Cons.prems obtain j where "find_sub sub cs = Some j" "k = Suc j" by auto
      with Cons.IH show ?thesis by fastforce
    qed
  qed
  have less: "indexOf s [LF] 0 = Some i \<Longrightarrow> i < length s" for s i
    using bound [of "[LF]" s i] by (auto simp: indexOf_def)
  show ?thesis
    by (relation "measure (\<lambda>(rt, aid, st). length (textBuffer st))") (auto dest: less)
qed

declare processLines.simps [simp del]

text \<open>The read loop: each chunk is appended to the buffer, then the complete lines of the
  buffer are processed.\<close>

fun readLoop :: "runtime \<Rightarrow> string \<Rightarrow> stream_state \<Rightarrow> string list \<Rightarrow> stream_state" where
  "readLoop rt assistantId st [] = st"
| "readLoop rt assistantId st (chunk # chunks) =
     readLoop rt assistantId
       (processLines rt assistantId (st\<lparr>textBuffer := textBuffer st @ chunk\<rparr>)) chunks"

text \<open>The body of the \<^verbatim>\<open>for\<close> of the final flush.\<close>

definition flushLine :: "runtime \<Rightarrow> string \<Rightarrow> stream_state \<Rightarrow> string \<Rightarrow> stream_state" where
  "flushLine rt assistantId st raw0 =
     (if raw0 = [] then st
      else (let raw = strip_cr raw0
            in if startsWith raw '':'' \<or> trim raw = [] then st
               else if \<not> startsWith raw ''data: '' then st
               else (let jsonStr = trim (drop 6 raw)
                     in if jsonStr = ''[DONE]'' then st
                        else (case parse_delta rt jsonStr of
                                None \<Rightarrow> st
                              | Some content \<Rightarrow>
                                  if truthy content
                                  then (case ToString rt (the content) of
                                          None \<Rightarrow> st
                                        | Some added \<Rightarrow>
                                            (let c = assistantContent st @ added
                                             in st\<lparr>assistantContent := c,
                                                   shown := show_final assistantId c (shown st)\<rparr>))
                                  else st))))"

definition finalFlush :: "runtime \<Rightarrow> string \<Rightarrow> stream_state \<Rightarrow> stream_state" where
  "finalFlush rt assistantId st =
     (if trim (textBuffer st) \<noteq> []
      then foldl (flushLine rt assistantId) st (split_on LF (textBuffer st))
      else st)"

text \<open>The ingestor on a response body that arrives as \<open>chunks\<close> and then ends:
  the read loop from the empty buffer, then the final flush.\<close>

definition ingest :: "runtime \<Rightarrow> string \<Rightarrow> message list \<Rightarrow> string list \<Rightarrow> stream_state" where
  "ingest rt assistantId msgs chunks =
     finalFlush rt assistantId
       (readLoop rt assistantId
          \<lparr>textBuffer = [], assistantContent = [], shown = msgs\<rparr> chunks)"

section \<open>The command extractor\<close>

text \<open>\<^verbatim>\<open>extractFencedJson\<close>: \<open>None\<close> is \<^verbatim>\<open>null\<close>, and a result is the pair of
  \<open>raw\<close> and \<open>parsed\<close>.\<close>

definition extractFencedJson :: "runtime \<Rightarrow> string \<Rightarrow> string \<Rightarrow> (string \<times> json) option" where
  "extractFencedJson rt text tag =
     (let startTag = ''```'' @ tag
      in case indexOf text startTag 0 of
           None \<Rightarrow> None
         | Some start \<Rightarrow>
             (case indexOf text ''```'' (start + length startTag) of
                None \<Rightarrow> None
              | Some closing \<Rightarrow>
                  if closing \<le> start then None
                  else (let raw = trim (slice text (start + length startTag) closing)
                        in case JSON_parse rt raw of
                             None \<Rightarrow> None
                           | Some parsed \<Rightarrow> Some (raw, parsed))))"

text \<open>\<^verbatim>\<open>x?.parsed\<close> on the result of an extraction.\<close>

definition parsed_of :: "(string \<times> json) option \<Rightarrow> json option" where
  "parsed_of ex = map_option snd ex"

section \<open>The chat panel\<close>

record intake_record =
  projectIdea :: string
  techStack :: string
  skillLevel :: string
  timeline :: string

text \<open>A call of \<^verbatim>\<open>addMessage\<close> of the conversation store.\<close>

record stored_message =
  st_role :: role
  st_content :: string
  st_type :: "msg_type option"
  st_fileOps :: "json option"
  st_mentorReport :: "json option"

text \<open>A row handed to \<^verbatim>\<open>supabase.from("mentor_reports").insert\<close>.\<close>

record report_row =
  submission_id :: string
  report :: json
  raw_text :: string

record toast =
  toast_title :: string
  toast_description :: string
  toast_destructive :: bool

datatype status = Ok | Error | UnknownAction

text \<open>An entry of \<open>applied\<close> or \<open>results\<close>: the operation, the \<open>status\<close> written
  over it, and the \<open>error\<close> text when there is one.\<close>

record op_result =
  operation :: json
  op_status :: status
  op_error :: "string option"

text \<open>
  The state of the component (the values of its \<^verbatim>\<open>useState\<close> hooks that the handlers
  read or write, and the properties \<open>currentConversation\<close> and \<open>submissionId\<close>), together
  with the calls it has made to its collaborators, in the order they were made: the
  conversation store (\<open>stored\<close>, \<open>savedIntakes\<close>, \<open>titles\<close>), the table of mentor reports
  (\<open>mentor_reports\<close>) and the toasts.
\<close>

record panel =
  messages :: "message list"
  input :: string
  intake :: "intake_record option"
  intakeConfirmed :: bool
  awaitingConfirmation :: bool
  isLoading :: bool
  pendingFileOps :: "json option"
  showFileOpsDialog :: bool
  pendingMilestoneOps :: "json option"
  showMilestoneOpsDialog :: bool
  opsLog :: "(nat \<times> op_result list) list"
  currentConversation :: bool
  submissionId :: "string option"
  stored :: "stored_message list"
  savedIntakes :: "intake_record list"
  titles :: "string list"
  mentor_reports :: "report_row list"
  toasts :: "toast list"

text \<open>The decimal digits of a number, as \<^verbatim>\<open>toString\<close> and template strings print it.\<close>

fun decimal :: "nat \<Rightarrow> string" where
  "decimal n = (if n < 10 then [char_of (48 + n)]
                else decimal (n div 10) @ [char_of (48 + n mod 10)])"

declare decimal.simps [simp del]

definition user_message :: "nat \<Rightarrow> string \<Rightarrow> message" where
  "user_message now text =
     \<lparr>msg_id = decimal now, msg_role = User, msg_content = text, msg_type = None\<rparr>"

definition assistant_message :: "nat \<Rightarrow> string \<Rightarrow> msg_type \<Rightarrow> message" where
  "assistant_message now text ty =
     \<lparr>msg_id = decimal now, msg_role = Assistant, msg_content = text, msg_type = Some ty\<rparr>"

text \<open>\<^verbatim>\<open>addMessage(role, content, type, fileOps, mentorReport)\<close>.\<close>

definition addMessage ::
  "role \<Rightarrow> string \<Rightarrow> msg_type option \<Rightarrow> json option \<Rightarrow> json option \<Rightarrow> panel \<Rightarrow> panel" where
  "addMessage r c ty fo mr s =
     s\<lparr>stored := stored s @ [\<lparr>st_role = r, st_content = c, st_type = ty, st_fileOps = fo,
                                st_mentorReport = mr\<rparr>]\<rparr>"

subsection \<open>parseIntakeFromText\<close>

text \<open>
  \<^verbatim>\<open>line.match(/^([^:]+):\s*(.+)$/)\<close>: the key is the text before the first colon and is
  not empty; \<^verbatim>\<open>\s*\<close> takes as much white space after the colon as leaves a value that is
  not empty and has no line terminator in it, up to the end of the line.
\<close>

definition match_key_value :: "string \<Rightarrow> (string \<times> string) option" where
  "match_key_value line =
     (let key = takeWhile (\<lambda>c. c \<noteq> CHR '':'') line;
          after = dropWhile (\<lambda>c. c \<noteq> CHR '':'') line
      in if key = [] \<or> after = [] then None
         else (let rest = tl after;
                   ws = length (takeWhile is_space rest)
               in map_option (\<lambda>j. (key, drop j rest))
                    (find (\<lambda>j. drop j rest \<noteq> []
                               \<and> list_all (\<lambda>c. \<not> is_line_terminator c) (drop j rest))
                       (rev [0 ..< ws + 1]))))"

text \<open>The loop that fills \<open>map\<close>.\<close>

fun collect_fields :: "(string \<rightharpoonup> string) \<Rightarrow> string list \<Rightarrow> (string \<rightharpoonup> string)" where
  "collect_fields m [] = m"
| "collect_fields m (line # lines) =
     (case match_key_value line of
        None \<Rightarrow> collect_fields m lines
      | Some (k, v) \<Rightarrow> collect_fields (m(toLowerCase k \<mapsto> v)) lines)"

text \<open>\<^verbatim>\<open>a || b || ""\<close> on two lookups in \<open>map\<close>.\<close>

definition either_field :: "string option \<Rightarrow> string option \<Rightarrow> string" where
  "either_field a b =
     (case a of
        Some v \<Rightarrow> if v \<noteq> [] then v else (case b of Some w \<Rightarrow> w | None \<Rightarrow> [])
      | None \<Rightarrow> (case b of Some w \<Rightarrow> w | None \<Rightarrow> []))"

definition parseIntakeFromText :: "string \<Rightarrow> intake_record option" where
  "parseIntakeFromText text =
     (let lines = filter (\<lambda>l. l \<noteq> []) (map trim (split_lines text));
          m = collect_fields Map.empty lines;
          pI = either_field (m ''project idea'') (m ''project'');
          tS = either_field (m ''tech stack'') (m ''tech'');
          sL = either_field (m ''skill level'') (m ''skill'');
          tl = either_field (m ''timeline'') (m ''timeframe'')
      in if pI \<noteq> [] \<and> tS \<noteq> [] \<and> sL \<noteq> [] \<and> tl \<noteq> []
         then Some \<lparr>projectIdea = pI, techStack = tS, skillLevel = sL, timeline = tl\<rparr>
         else None)"

subsection \<open>handleSend\<close>

definition codeRequestPatterns :: "string list" where
  "codeRequestPatterns =
     [''give me the code'', ''paste the code'', ''implement for me'', ''write the code'',
      ''full implementation'', ''complete solution'']"

definition is_code_request :: "string \<Rightarrow> bool" where
  "is_code_request text = list_ex (\<lambda>rx. test_literal_i rx text) codeRequestPatterns"

definition refusal_text :: string where
  "refusal_text = ''I cannot provide code. Describe your intended approach and I will guide the logic, tests, and structure.''"

definition parsed_intake_text :: "intake_record \<Rightarrow> string" where
  "parsed_intake_text parsed =
     ''I parsed your intake as:'' @ [LF] @ ''Project idea: '' @ projectIdea parsed @ [LF]
       @ ''Tech stack: '' @ techStack parsed @ [LF]
       @ ''Skill level: '' @ skillLevel parsed @ [LF]
       @ ''Timeline: '' @ timeline parsed @ [LF] @ [LF]
       @ ''Please reply with **yes** to confirm or **no** to re-enter the details.''"

definition confirmed_text :: string where
  "confirmed_text = ''Intake confirmed. Tell me which milestone you'' @ [CHR 0x27]
     @ ''d like to start with, or ask me to create the full milestone sequence.''"

text \<open>The dash of this message is U+2014, outside the code units of the model; it is
  written here as a hyphen.\<close>

definition reenter_text :: string where
  "reenter_text = ''Okay - please re-enter the intake fields in the required format.''"

definition helper_text :: string where
  "helper_text =
     ''Please provide the required intake fields in this exact format:'' @ [LF]
       @ ''Project idea: ...'' @ [LF] @ ''Tech stack: ...'' @ [LF]
       @ ''Skill level: ...'' @ [LF] @ ''Timeline: ...'' @ [LF] @ [LF]
       @ ''Or confirm the parsed intake with '' @ [CHR 0x27] @ ''yes'' @ [CHR 0x27] @ ''/''
       @ [CHR 0x27] @ ''no'' @ [CHR 0x27] @ ''.''"

text \<open>What every branch of \<open>handleSend\<close> that answers by itself does: the user's message and
  the answer are shown, both are stored when there is a conversation, the input is
  cleared.\<close>

definition reply :: "nat \<Rightarrow> string \<Rightarrow> string \<Rightarrow> msg_type \<Rightarrow> panel \<Rightarrow> panel" where
  "reply now text answer ty s =
     (let s1 = s\<lparr>messages := messages s @ [user_message now text,
                                              assistant_message (now + 1) answer ty]\<rparr>;
          s2 = (if currentConversation s1
                then addMessage Assistant answer (Some ty) None None
                       (addMessage User text None None None s1)
                else s1)
      in s2\<lparr>input := []\<rparr>)"

text \<open>The refusal carries the identifier \<^verbatim>\<open>Date.now()\<close> itself, as the user's message
  does.\<close>

definition refuse :: "nat \<Rightarrow> string \<Rightarrow> panel \<Rightarrow> panel" where
  "refuse now text s =
     (let s1 = s\<lparr>messages := messages s @ [user_message now text,
                                              assistant_message now refusal_text Warning]\<rparr>;
          s2 = (if currentConversation s1
                then addMessage Assistant refusal_text (Some Warning) None None
                       (addMessage User text None None None s1)
                else s1)
      in s2\<lparr>input := []\<rparr>)"

text \<open>The update of the title of the conversation at the start of \<open>handleSend\<close>.\<close>

definition titled :: "panel \<Rightarrow> panel" where
  "titled s =
     (if currentConversation s
      then s\<lparr>titles := titles s @ [''BODHIT: '' @ slice (trim (input s)) 0 48]\<rparr>
      else s)"

text \<open>The block of \<open>handleSend\<close> under \<^verbatim>\<open>if (!intakeConfirmed)\<close>, every path of which
  returns.\<close>

definition intake_step :: "nat \<Rightarrow> string \<Rightarrow> panel \<Rightarrow> panel" where
  "intake_step now text s =
     (case parseIntakeFromText text of
        Some parsed \<Rightarrow>
          reply now text (parsed_intake_text parsed) Question
            (s\<lparr>intake := Some parsed, awaitingConfirmation := True\<rparr>)
      | None \<Rightarrow>
          if awaitingConfirmation s \<and> test_exact_i ''yes'' text \<and> intake s \<noteq> None
          then (let s1 = reply now text confirmed_text Explanation
                           (s\<lparr>intakeConfirmed := True, awaitingConfirmation := False\<rparr>)
                in if currentConversation s1
                   then s1\<lparr>savedIntakes := savedIntakes s1 @ [the (intake s)]\<rparr>
                   else s1)
          else if awaitingConfirmation s \<and> test_exact_i ''no'' text
          then reply now text reenter_text Explanation
                 (s\<lparr>intake := None, awaitingConfirmation := False\<rparr>)
          else reply now text helper_text Question s)"

text \<open>
  \<open>handleSend\<close> at the time \<open>now\<close>. The result is the new state and, when the handler goes
  on to \<^verbatim>\<open>streamChat(text)\<close>, that text.
\<close>

definition handleSend :: "nat \<Rightarrow> panel \<Rightarrow> panel \<times> string option" where
  "handleSend now s0 =
     (if trim (input s0) = [] \<or> isLoading s0 then (s0, None)
      else (let text = trim (input s0);
                s = titled s0
            in if is_code_request text then (refuse now text s, None)
               else if \<not> intakeConfirmed s then (intake_step now text s, None)
               else (s, Some text)))"

subsection \<open>streamChat\<close>

text \<open>
  What \<^verbatim>\<open>fetch\<close> and the reader of the body do: \<open>FetchError\<close> when \<^verbatim>\<open>fetch\<close> throws,
  \<open>HttpError status e\<close> for a response that is not \<open>ok\<close> (\<open>e\<close> is the \<open>error\<close> field of
  its body when that is a string that is not empty), \<open>NoBody\<close> for a response without a
  body, and \<open>Body chunks failed\<close> for a body read as \<open>chunks\<close>, the decoded text of
  each \<^verbatim>\<open>reader.read()\<close>, after which the reader reports \<open>done\<close>, or throws when
  \<open>failed\<close> is set.
\<close>

datatype response =
    FetchError
  | HttpError nat "string option"
  | NoBody
  | Body "string list" bool

definition add_toast :: "string \<Rightarrow> string \<Rightarrow> bool \<Rightarrow> panel \<Rightarrow> panel" where
  "add_toast t d v s =
     s\<lparr>toasts := toasts s @ [\<lparr>toast_title = t, toast_description = d, toast_destructive = v\<rparr>]\<rparr>"

definition connection_error :: "panel \<Rightarrow> panel" where
  "connection_error s =
     add_toast ''Connection Error'' ''Failed to connect to AI. Please try again.'' True s"

definition http_error_toast :: "nat \<Rightarrow> string option \<Rightarrow> panel \<Rightarrow> panel" where
  "http_error_toast st e s =
     (if st = 429
      then add_toast ''Rate Limited'' ''Too many requests. Please wait a moment and try again.'' True s
      else if st = 402
      then add_toast ''Credits Exhausted'' ''AI credits have been used up. Please add more credits.'' True s
      else add_toast ''Error'' (case e of Some d \<Rightarrow> d | None \<Rightarrow> ''Failed to get response'') True s)"

text \<open>\<^verbatim>\<open>x ?? null\<close>.\<close>

definition or_null :: "json option \<Rightarrow> json" where
  "or_null x = (case x of None \<Rightarrow> JNull | Some v \<Rightarrow> v)"

text \<open>The four statements of \<open>streamChat\<close> after the extractions: staging the file
  operations, staging the milestone operations, storing the assistant's message, and
  saving the mentor report.\<close>

definition stage_file_ops :: "(string \<times> json) option \<Rightarrow> panel \<Rightarrow> panel" where
  "stage_file_ops fileOpsExtract s =
     (if truthy (parsed_of fileOpsExtract)
      then s\<lparr>pendingFileOps := parsed_of fileOpsExtract, showFileOpsDialog := True\<rparr>
      else s)"

definition stage_milestone_ops :: "(string \<times> json) option \<Rightarrow> panel \<Rightarrow> panel" where
  "stage_milestone_ops milestoneOpsExtract s =
     (if truthy (parsed_of milestoneOpsExtract)
      then s\<lparr>pendingMilestoneOps := parsed_of milestoneOpsExtract,
              showMilestoneOpsDialog := True\<rparr>
      else s)"

definition store_assistant ::
  "string \<Rightarrow> (string \<times> json) option \<Rightarrow> (string \<times> json) option \<Rightarrow> panel \<Rightarrow> panel" where
  "store_assistant content fileOpsExtract mentorReportExtract s =
     (if currentConversation s \<and> content \<noteq> []
      then addMessage Assistant content (Some Explanation)
             (Some (or_null (parsed_of fileOpsExtract)))
             (Some (or_null (parsed_of mentorReportExtract))) s
      else s)"

text \<open>The row is recorded when \<open>insert\<close> is called; the component ignores what the call
  returns and only logs what it throws.\<close>

definition save_mentor_report :: "(string \<times> json) option \<Rightarrow> panel \<Rightarrow> panel" where
  "save_mentor_report mentorReportExtract s =
     (if truthy (parsed_of mentorReportExtract)
         \<and> (case submissionId s of None \<Rightarrow> False | Some sid \<Rightarrow> sid \<noteq> [])
      then s\<lparr>mentor_reports := mentor_reports s @
                [\<lparr>submission_id = the (submissionId s),
                  report = the (parsed_of mentorReportExtract),
                  raw_text = fst (the mentorReportExtract)\<rparr>]\<rparr>
      else s)"

text \<open>The part of \<open>streamChat\<close> after the \<^verbatim>\<open>try\<close> statement, on the accumulated
  \<open>assistantContent\<close>.\<close>

definition finalize :: "runtime \<Rightarrow> panel \<Rightarrow> string \<Rightarrow> panel" where
  "finalize rt s content =
     (let fileOpsExtract =
            (if content \<noteq> [] then extractFencedJson rt content ''FILE_OPS'' else None);
          mentorReportExtract =
            (if content \<noteq> [] then extractFencedJson rt content ''MENTOR_REPORT'' else None);
          milestoneOpsExtract =
            (if content \<noteq> [] then extractFencedJson rt content ''MILESTONE_OPS'' else None)
      in save_mentor_report mentorReportExtract
           (store_assistant content fileOpsExtract mentorReportExtract
              (stage_milestone_ops milestoneOpsExtract (stage_file_ops fileOpsExtract s))))"

text \<open>The statements of \<open>streamChat\<close> before its \<^verbatim>\<open>try\<close> statement: the user's message
  is shown and stored, the input is cleared and the panel is loading.\<close>

definition begin_request :: "nat \<Rightarrow> panel \<Rightarrow> string \<Rightarrow> panel" where
  "begin_request now s0 userMessage =
     (let s1 = s0\<lparr>messages := messages s0 @ [user_message now userMessage],
                  input := [], isLoading := True\<rparr>
      in if currentConversation s1
         then addMessage User userMessage None None None s1 else s1)"

text \<open>\<open>streamChat\<close> at the time \<open>now\<close>, with the response that the request gets.\<close>

definition streamChat :: "runtime \<Rightarrow> nat \<Rightarrow> panel \<Rightarrow> string \<Rightarrow> response \<Rightarrow> panel" where
  "streamChat rt now s0 userMessage resp =
     (let s2 = begin_request now s0 userMessage
      in case resp of
           HttpError st e \<Rightarrow> (http_error_toast st e s2)\<lparr>isLoading := False\<rparr>
         | FetchError \<Rightarrow> finalize rt ((connection_error s2)\<lparr>isLoading := False\<rparr>) []
         | NoBody \<Rightarrow> finalize rt ((connection_error s2)\<lparr>isLoading := False\<rparr>) []
         | Body chunks failed \<Rightarrow>
             (let assistantId = decimal (now + 1);
                  st = readLoop rt assistantId
                         \<lparr>textBuffer = [], assistantContent = [], shown = messages s2\<rparr> chunks;
                  st1 = (if failed then st else finalFlush rt assistantId st);
                  s3 = s2\<lparr>messages := shown st1\<rparr>;
                  s4 = (if failed then connection_error s3 else s3)
              in finalize rt (s4\<lparr>isLoading := False\<rparr>) (assistantContent st1)))"

section \<open>The operation dispatcher\<close>

text \<open>\<^verbatim>\<open>a || b\<close> on values.\<close>

definition js_or :: "json option \<Rightarrow> json option \<Rightarrow> json option" where
  "js_or a b = (if truthy a then a else b)"

text \<open>
  The collaborators are not part of the component: the file system of \<^verbatim>\<open>useFileSystem\<close>,
  the browser's download of a blob, and the tables behind \<^verbatim>\<open>supabase\<close>. Each call acts
  on the state \<open>'w\<close> of the world outside the component and either returns or throws; a
  result \<open>(Some e, w)\<close> is a call that throws an exception with \<^verbatim>\<open>String(err)\<close> equal
  to \<open>e\<close>, leaving the world as \<open>w\<close>. For \<open>update_row\<close>, \<open>Some e\<close> also stands for an
  \<open>error\<close> in the result, which the component throws itself.

  The download of the export is two calls, with the assignment of the file name between
  them: \<open>prepareDownload json\<close> stands for the blob of the text, its object URL and the
  anchor with that URL as \<^verbatim>\<open>href\<close>; \<open>startDownload filename\<close> for the click on the
  anchor, which then carries that file name, and the release of the URL.
  \<open>currentFilesJson\<close> is what \<^verbatim>\<open>JSON.stringify(currentFiles, null, 2)\<close> does: it returns
  a text (\<open>Inr\<close>) or throws (\<open>Inl\<close>).
\<close>

record 'w file_system =
  createFile :: "json option \<Rightarrow> json option \<Rightarrow> json option \<Rightarrow> 'w \<Rightarrow> string option \<times> 'w"
  updateFile :: "json option \<Rightarrow> json option \<Rightarrow> 'w \<Rightarrow> string option \<times> 'w"
  deleteFile :: "json option \<Rightarrow> bool \<Rightarrow> 'w \<Rightarrow> string option \<times> 'w"
  renameFile :: "json option \<Rightarrow> json option \<Rightarrow> 'w \<Rightarrow> string option \<times> 'w"
  exportProject :: "'w \<Rightarrow> string + string"

record 'w services =
  prepareDownload :: "string \<Rightarrow> 'w \<Rightarrow> string option \<times> 'w"
  startDownload :: "string \<Rightarrow> 'w \<Rightarrow> string option \<times> 'w"
  update_row :: "string \<Rightarrow> (string \<times> json) list \<Rightarrow> json \<Rightarrow> 'w \<Rightarrow> string option \<times> 'w"
  currentFilesJson :: "string + string"

text \<open>
  The body of a \<^verbatim>\<open>try\<close> either throws, \<open>Inl e\<close> with \<open>e\<close> the text
  \<^verbatim>\<open>String(err)\<close> of what it throws, or it ends after pushing a result with a status,
  \<open>Inr status\<close>. \<open>called\<close> is a call of a collaborator followed by the push of
  \<^verbatim>\<open>ok\<close>; \<open>caught\<close> is the entry that ends up in the list of results, pushed by the
  body or by the \<^verbatim>\<open>catch\<close>.
\<close>

definition called :: "string option \<times> 'w \<Rightarrow> 'w \<times> (string + status)" where
  "called r = (case r of (None, w1) \<Rightarrow> (w1, Inr Ok) | (Some e, w1) \<Rightarrow> (w1, Inl e))"

definition caught :: "json \<Rightarrow> string + status \<Rightarrow> op_result" where
  "caught op out =
     (case out of
        Inr st \<Rightarrow> \<lparr>operation = op, op_status = st, op_error = None\<rparr>
      | Inl e \<Rightarrow> \<lparr>operation = op, op_status = Error, op_error = Some e\<rparr>)"

text \<open>The \<^verbatim>\<open>try\<close> block in the loop of \<open>applyFileOps\<close>, the \<^verbatim>\<open>switch\<close> on
  \<open>op.action\<close>, on the world \<open>w\<close>.\<close>

definition file_op_try ::
  "runtime \<Rightarrow> 'w file_system option \<Rightarrow> 'w services \<Rightarrow> nat \<Rightarrow> 'w \<Rightarrow> json
     \<Rightarrow> 'w \<times> (string + status)" where
  "file_op_try rt fs sv now w op =
     (if op = JNull then (w, Inl (TypeError_text rt ''action''))
      else (let action = get_prop op ''action''
            in if action = Some (JString ''create'') then
                 (case fs of
                    None \<Rightarrow> (w, Inr Ok)
                  | Some api \<Rightarrow>
                      called (createFile api (get_prop op ''path'')
                                (js_or (get_prop op ''content'') (Some (JString [])))
                                (js_or (get_prop op ''language'') (Some (JString ''text''))) w))
               else if action = Some (JString ''update'') then
                 (case fs of
                    None \<Rightarrow> (w, Inr Ok)
                  | Some api \<Rightarrow>
                      called (updateFile api (get_prop op ''path'')
                                (js_or (get_prop op ''content'') (Some (JString []))) w))
               else if action = Some (JString ''delete'') then
                 (case fs of
                    None \<Rightarrow> (w, Inr Ok)
                  | Some api \<Rightarrow>
                      called (deleteFile api (get_prop op ''path'')
                                (truthy (get_prop op ''recursive'')) w))
               else if action = Some (JString ''rename'') then
                 (case fs of
                    None \<Rightarrow> (w, Inr Ok)
                  | Some api \<Rightarrow>
                      called (renameFile api (get_prop op ''path'')
                                (js_or (get_prop op ''newName'') (get_prop op ''newPath'')) w))
               else if action = Some (JString ''export'') then
                 (case (case fs of None \<Rightarrow> currentFilesJson sv
                                 | Some api \<Rightarrow> exportProject api w) of
                    Inl e \<Rightarrow> (w, Inl e)
                  | Inr json \<Rightarrow>
                      (case prepareDownload sv json w of
                         (Some e, w1) \<Rightarrow> (w1, Inl e)
                       | (None, w1) \<Rightarrow>
                           (case ToString rt (the (js_or (get_prop op ''filename'')
                                   (Some (JString (''bodhit-project-'' @ decimal now @ ''.json''))))) of
                              None \<Rightarrow> (w1, Inl (ConversionError_text rt))
                            | Some filename \<Rightarrow> called (startDownload sv filename w1))))
               else (w, Inr UnknownAction)))"

text \<open>One turn of the loop of \<open>applyFileOps\<close>: the world after it and the entry pushed on
  \<open>applied\<close>.\<close>

definition apply_file_op ::
  "runtime \<Rightarrow> 'w file_system option \<Rightarrow> 'w services \<Rightarrow> nat \<Rightarrow> 'w \<Rightarrow> json \<Rightarrow> 'w \<times> op_result" where
  "apply_file_op rt fs sv now w op =
     (let (w1, out) = file_op_try rt fs sv now w op in (w1, caught op out))"

text \<open>The \<^verbatim>\<open>for\<close> loop of \<open>applyFileOps\<close>.\<close>

fun apply_file_ops ::
  "runtime \<Rightarrow> 'w file_system option \<Rightarrow> 'w services \<Rightarrow> nat \<Rightarrow> 'w \<Rightarrow> json list
     \<Rightarrow> 'w \<times> op_result list" where
  "apply_file_ops rt fs sv now w [] = (w, [])"
| "apply_file_ops rt fs sv now w (op # ops) =
     (let (w1, r) = apply_file_op rt fs sv now w op;
          (w2, rs) = apply_file_ops rt fs sv now w1 ops
      in (w2, r # rs))"

text \<open>\<^verbatim>\<open>Array.isArray(ops) ? ops : [ops]\<close>.\<close>

definition as_operations :: "json \<Rightarrow> json list" where
  "as_operations ops = (case ops of JArray xs \<Rightarrow> xs | _ \<Rightarrow> [ops])"

definition applyFileOps ::
  "runtime \<Rightarrow> 'w file_system option \<Rightarrow> 'w services \<Rightarrow> nat \<Rightarrow> 'w \<times> panel \<Rightarrow> json option
     \<Rightarrow> 'w \<times> panel" where
  "applyFileOps rt fs sv now ws ops =
     (if \<not> truthy ops then ws
      else (let (w1, applied) = apply_file_ops rt fs sv now (fst ws) (as_operations (the ops))
            in (w1, (snd ws)\<lparr>opsLog := opsLog (snd ws) @ [(now, applied)],
                             showFileOpsDialog := False, pendingFileOps := None\<rparr>)))"

text \<open>The assignments \<^verbatim>\<open>if (op.k) payload.k = op.k\<close>, in order.\<close>

definition provided :: "json \<Rightarrow> string list \<Rightarrow> (string \<times> json) list" where
  "provided op ks =
     map (\<lambda>k. (k, the (get_prop op k))) (filter (\<lambda>k. truthy (get_prop op k)) ks)"

definition milestone_payload :: "json \<Rightarrow> (string \<times> json) list" where
  "milestone_payload op = provided op [''status'', ''title'', ''description'', ''due_date'']"

definition is_number :: "json option \<Rightarrow> bool" where
  "is_number x = (case x of Some (JNumber n) \<Rightarrow> True | _ \<Rightarrow> False)"

definition task_payload :: "json \<Rightarrow> (string \<times> json) list" where
  "task_payload op =
     provided op [''status'']
       @ (if is_number (get_prop op ''progress'')
          then [(''progress'', the (get_prop op ''progress''))] else [])
       @ provided op [''title'', ''description'']"

text \<open>The \<^verbatim>\<open>try\<close> block in the loop of \<open>applyMilestoneOps\<close>.\<close>

definition milestone_op_try ::
  "runtime \<Rightarrow> 'w services \<Rightarrow> 'w \<Rightarrow> json \<Rightarrow> 'w \<times> (string + status)" where
  "milestone_op_try rt sv w op =
     (if op = JNull then (w, Inl (TypeError_text rt ''action''))
      else (let action = get_prop op ''action''
            in if action = Some (JString ''update_milestone'') then
                 (if \<not> truthy (get_prop op ''milestone_id'')
                  then (w, Inl ''Error: milestone_id is required'')
                  else called (update_row sv ''milestones'' (milestone_payload op)
                                 (the (get_prop op ''milestone_id'')) w))
               else if action = Some (JString ''update_task'') then
                 (if \<not> truthy (get_prop op ''task_id'')
                  then (w, Inl ''Error: task_id is required'')
                  else called (update_row sv ''tasks'' (task_payload op)
                                 (the (get_prop op ''task_id'')) w))
               else (w, Inr UnknownAction)))"

text \<open>One turn of the loop of \<open>applyMilestoneOps\<close>.\<close>

definition apply_milestone_op :: "runtime \<Rightarrow> 'w services \<Rightarrow> 'w \<Rightarrow> json \<Rightarrow> 'w \<times> op_result" where
  "apply_milestone_op rt sv w op =
     (let (w1, out) = milestone_op_try rt sv w op in (w1, caught op out))"

fun apply_milestone_ops ::
  "runtime \<Rightarrow> 'w services \<Rightarrow> 'w \<Rightarrow> json list \<Rightarrow> 'w \<times> op_result list" where
  "apply_milestone_ops rt sv w [] = (w, [])"
| "apply_milestone_ops rt sv w (op # ops) =
     (let (w1, r) = apply_milestone_op rt sv w op;
          (w2, rs) = apply_milestone_ops rt sv w1 ops
      in (w2, r # rs))"

definition milestone_toast :: "op_result list \<Rightarrow> panel \<Rightarrow> panel" where
  "milestone_toast results s =
     (let failed = length (filter (\<lambda>r. op_status r \<noteq> Ok) results)
      in if failed \<noteq> 0
         then add_toast ''Milestone ops completed with warnings''
                (decimal (length results - failed) @ '' succeeded, '' @ decimal failed @ '' failed'')
                True s
         else add_toast ''Milestone ops applied''
                (decimal (length results) @ '' changes applied'') False s)"

definition applyMilestoneOps ::
  "runtime \<Rightarrow> 'w services \<Rightarrow> 'w \<times> panel \<Rightarrow> json option \<Rightarrow> 'w \<times> panel" where
  "applyMilestoneOps rt sv ws ops =
     (if \<not> truthy ops then ws
      else (let (w1, results) = apply_milestone_ops rt sv (fst ws) (as_operations (the ops))
            in (w1, (milestone_toast results (snd ws))
                      \<lparr>showMilestoneOpsDialog := False, pendingMilestoneOps := None\<rparr>)))"

text \<open>The two buttons called Cancel.\<close>

definition cancelFileOps :: "panel \<Rightarrow> panel" where
  "cancelFileOps s = s\<lparr>showFileOpsDialog := False, pendingFileOps := None\<rparr>"

definition cancelMilestoneOps :: "panel \<Rightarrow> panel" where
  "cancelMilestoneOps s = s\<lparr>showMilestoneOpsDialog := False, pendingMilestoneOps := None\<rparr>"

section \<open>An instance of the runtime\<close>

text \<open>
  The theorems below hold for every runtime. To evaluate the program on concrete texts,
  this section gives one: a parser for the JSON grammar (ECMA-404), on the code units of
  the model. It reads a number as the exact value of its decimal literal and does not
  round it to a double; an escape \<^verbatim>\<open>\uXXXX\<close> above \<^verbatim>\<open>\u00FF\<close> has no code
  unit in the model and is refused.
\<close>

definition is_json_ws :: "char \<Rightarrow> bool" where
  "is_json_ws c = (c = CHR 0x20 \<or> c = CHR 0x09 \<or> c = CHR 0x0A \<or> c = CHR 0x0D)"

definition is_digit :: "char \<Rightarrow> bool" where
  "is_digit c = (let n = (of_char c :: nat) in 48 \<le> n \<and> n \<le> 57)"

definition digits_value :: "string \<Rightarrow> nat" where
  "digits_value ds = foldl (\<lambda>a c. 10 * a + ((of_char c :: nat) - 48)) 0 ds"

definition hex_value :: "char \<Rightarrow> nat option" where
  "hex_value c =
     (let n = (of_char c :: nat)
      in if 48 \<le> n \<and> n \<le> 57 then Some (n - 48)
         else if 97 \<le> n \<and> n \<le> 102 then Some (n - 87)
         else if 65 \<le> n \<and> n \<le> 70 then Some (n - 55)
         else None)"

fun hex_number :: "nat \<Rightarrow> string \<Rightarrow> nat option" where
  "hex_number a [] = Some a"
| "hex_number a (c # cs) =
     (case hex_value c of None \<Rightarrow> None | Some d \<Rightarrow> hex_number (16 * a + d) cs)"

definition escape_char :: "char \<Rightarrow> char option" where
  "escape_char e =
     (if e = CHR 0x22 then Some (CHR 0x22)
      else if e = CHR 0x5C then Some (CHR 0x5C)
      else if e = CHR ''/'' then Some (CHR ''/'')
      else if e = CHR ''b'' then Some (CHR 0x08)
      else if e = CHR ''f'' then Some (CHR 0x0C)
      else if e = CHR ''n'' then Some (CHR 0x0A)
      else if e = CHR ''r'' then Some (CHR 0x0D)
      else if e = CHR ''t'' then Some (CHR 0x09)
      else None)"

text \<open>The characters of a string literal after its opening quote, and the text after its
  closing quote.\<close>

function parse_string_chars :: "string \<Rightarrow> (string \<times> string) option" where
  "parse_string_chars [] = None"
| "parse_string_chars (c # cs) =
     (if c = CHR 0x22 then Some ([], cs)
      else if c = CHR 0x5C then
        (if cs = [] then None
         else if hd cs = CHR ''u'' then
           (case hex_number 0 (take 4 (tl cs)) of
              None \<Rightarrow> None
            | Some n \<Rightarrow>
                if length (tl cs) < 4 \<or> 256 \<le> n then None
                else map_option (\<lambda>(str, r). (char_of n # str, r))
                       (parse_string_chars (drop 4 (tl cs))))
         else (case escape_char (hd cs) of
                 None \<Rightarrow> None
               | Some x \<Rightarrow> map_option (\<lambda>(str, r). (x # str, r)) (parse_string_chars (tl cs))))
      else if (of_char c :: nat) < 32 then None
      else map_option (\<lambda>(str, r). (c # str, r)) (parse_string_chars cs))"
  by pat_completeness auto

termination parse_string_chars
  by (relation "measure length") auto

definition parse_number :: "string \<Rightarrow> (json \<times> string) option" where
  "parse_number s =
     (let neg = (s \<noteq> [] \<and> hd s = CHR ''-'');
          s1 = (if neg then tl s else s);
          ip = takeWhile is_digit s1;
          s2 = dropWhile is_digit s1;
          has_frac = (s2 \<noteq> [] \<and> hd s2 = CHR ''.'');
          fp = (if has_frac then takeWhile is_digit (tl s2) else []);
          s3 = (if has_frac then dropWhile is_digit (tl s2) else s2);
          has_exp = (s3 \<noteq> [] \<and> (hd s3 = CHR ''e'' \<or> hd s3 = CHR ''E''));
          s4 = (if has_exp then tl s3 else s3);
          eneg = (has_exp \<and> s4 \<noteq> [] \<and> hd s4 = CHR ''-'');
          s5 = (if has_exp \<and> s4 \<noteq> [] \<and> (hd s4 = CHR ''-'' \<or> hd s4 = CHR ''+'') then tl s4 else s4);
          ep = (if has_exp then takeWhile is_digit s5 else []);
          s6 = (if has_exp then dropWhile is_digit s5 else s5);
          mant = (of_nat (digits_value (ip @ fp)) :: rat) / 10 ^ length fp;
          scaled = (if eneg then mant / 10 ^ digits_value ep else mant * 10 ^ digits_value ep)
      in if ip = [] \<or> (1 < length ip \<and> hd ip = CHR ''0'') \<or> (has_frac \<and> fp = [])
            \<or> (has_exp \<and> ep = [])
         then None
         else Some (JNumber (if neg then - scaled else scaled), s6))"

text \<open>The recursive descent, with a bound on the depth of the calls; \<open>parse_elements\<close>
  reads the elements of an array after its bracket, \<open>parse_members\<close> the members of an
  object after its brace.\<close>

function parse_value :: "nat \<Rightarrow> string \<Rightarrow> (json \<times> string) option"
  and parse_elements :: "nat \<Rightarrow> string \<Rightarrow> (json list \<times> string) option"
  and parse_members :: "nat \<Rightarrow> string \<Rightarrow> ((string \<times> json) list \<times> string) option" where
  "parse_value 0 s = None"
| "parse_value (Suc f) s0 =
     (let s = dropWhile is_json_ws s0
      in if prefix ''null'' s then Some (JNull, drop 4 s)
         else if prefix ''true'' s then Some (JBool True, drop 4 s)
         else if prefix ''false'' s then Some (JBool False, drop 5 s)
         else if s = [] then None
         else if hd s = CHR 0x22 then
           map_option (\<lambda>(str, r). (JString str, r)) (parse_string_chars (tl s))
         else if hd s = CHR ''['' then
           (let r = dropWhile is_json_ws (tl s)
            in if r \<noteq> [] \<and> hd r = CHR '']'' then Some (JArray [], tl r)
               else map_option (\<lambda>(vs, r1). (JArray vs, r1)) (parse_elements f r))
         else if hd s = CHR ''{'' then
           (let r = dropWhile is_json_ws (tl s)
            in if r \<noteq> [] \<and> hd r = CHR ''}'' then Some (JObject [], tl r)
               else map_option (\<lambda>(kvs, r1). (JObject kvs, r1)) (parse_members f r))
         else parse_number s)"
| "parse_elements 0 s = None"
| "parse_elements (Suc f) s =
     (case parse_value f s of
        None \<Rightarrow> None
      | Some (v, r0) \<Rightarrow>
          (let r = dropWhile is_json_ws r0
           in if r = [] then None
              else if hd r = CHR '','' then
                map_option (\<lambda>(vs, r1). (v # vs, r1)) (parse_elements f (tl r))
              else if hd r = CHR '']'' then Some ([v], tl r)
              else None))"
| "parse_members 0 s = None"
| "parse_members (Suc f) s0 =
     (let s = dropWhile is_json_ws s0
      in if s = [] \<or> hd s \<noteq> CHR 0x22 then None
         else (case parse_string_chars (tl s) of
                 None \<Rightarrow> None
               | Some (k, r0) \<Rightarrow>
                   (let r = dropWhile is_json_ws r0
                    in if r = [] \<or> hd r \<noteq> CHR '':'' then None
                       else (case parse_value f (tl r) of
                               None \<Rightarrow> None
                             | Some (v, r1) \<Rightarrow>
                                 (let r2 = dropWhile is_json_ws r1
                                  in if r2 = [] then None
                                     else if hd r2 = CHR '','' then
                                       map_option (\<lambda>(kvs, r3). ((k, v) # kvs, r3))
                                         (parse_members f (tl r2))
                                     else if hd r2 = CHR ''}'' then Some ([(k, v)], tl r2)
                                     else None)))))"
  by pat_completeness auto

termination parse_value
  by (relation "measure (\<lambda>x. case x of Inl (f, s) \<Rightarrow> f | Inr (Inl (f, s)) \<Rightarrow> f
                                     | Inr (Inr (f, s)) \<Rightarrow> f)") simp_all

definition json_parse :: "string \<Rightarrow> json option" where
  "json_parse s =
     (case parse_value (length s + 1) s of
        None \<Rightarrow> None
      | Some (v, r) \<Rightarrow> if dropWhile is_json_ws r = [] then Some v else None)"

text \<open>The decimal text of a number: exact for an integer below \<open>2^53\<close> in magnitude, and
  for a short decimal fraction, which the engine prints digit for digit.\<close>

fun fraction_digits :: "nat \<Rightarrow> rat \<Rightarrow> string" where
  "fraction_digits 0 r = []"
| "fraction_digits (Suc k) r =
     (if r = 0 then []
      else (let d = nat \<lfloor>r * 10\<rfloor>
            in char_of (48 + d) # fraction_digits k (r * 10 - of_nat d)))"

definition number_text :: "rat \<Rightarrow> string" where
  "number_text q =
     (let a = \<bar>q\<bar>; i = nat \<lfloor>a\<rfloor>; f = a - of_nat i
      in (if q < 0 then ''-'' else []) @ decimal i
           @ (if f = 0 then [] else ''.'' @ fraction_digits 17 f))"

text \<open>The texts of the two exceptions are the ones of V8.\<close>

definition engine :: runtime where
  "engine =
     \<lparr>JSON_parse = json_parse,
      Number_toString = number_text,
      TypeError_text = (\<lambda>k. ''TypeError: Cannot read properties of null (reading '' @ [CHR 0x27]
                              @ k @ [CHR 0x27] @ '')''),
      ConversionError_text = ''TypeError: Cannot convert object to primitive value''\<rparr>"

section \<open>The text that a buffer holds\<close>

text \<open>
  Two functions to state and prove what the ingestor computes: the text that one line of
  the response contributes to \<open>assistantContent\<close>, whichever of the two loops reads
  it, and the text that all the lines of a buffer contribute.
\<close>

definition line_text :: "runtime \<Rightarrow> string \<Rightarrow> string" where
  "line_text rt raw0 =
     (let raw = strip_cr raw0
      in if startsWith raw '':'' \<or> trim raw = [] \<or> \<not> startsWith raw ''data: ''
            \<or> trim (drop 6 raw) = ''[DONE]'' then []
         else (case parse_delta rt (trim (drop 6 raw)) of
                 None \<Rightarrow> []
               | Some content \<Rightarrow>
                   if truthy content
                   then (case ToString rt (the content) of None \<Rightarrow> [] | Some added \<Rightarrow> added)
                   else []))"

definition flush_text :: "runtime \<Rightarrow> string \<Rightarrow> string" where
  "flush_text rt buf = concat (map (line_text rt) (split_on LF buf))"

section \<open>Concrete inputs\<close>

text \<open>States and texts on which the properties below are evaluated.\<close>

definition broken_buffer :: stream_state where
  "broken_buffer =
     \<lparr>textBuffer = ''data: {\"cho'' @ [CR, LF] @ ''data: {}'' @ [LF],
      assistantContent = ''Hi'', shown = []\<rparr>"

section \<open>Recognized actions\<close>



text \<open>\<open>op.action\<close> is one of the strings \<open>acts\<close>.\<close>

definition recognized :: "string list \<Rightarrow> json \<Rightarrow> bool" where
  "recognized acts op =
     (case get_prop op ''action'' of Some (JString a) \<Rightarrow> a \<in> set acts | _ \<Rightarrow> False)"


text \<open>Services for the examples, on a world that is a list of names: the downloads never
  fail, and every update of a row adds the name of its table to the world.\<close>

definition demo_services :: "string list services" where
  "demo_services =
     \<lparr>prepareDownload = (\<lambda>json w. (None, w)),
      startDownload = (\<lambda>filename w. (None, w)),
      update_row = (\<lambda>table payload ident w. (None, w @ [table])),
      currentFilesJson = Inr ''{}''\<rparr>"








text \<open>The four actions that change files, and a batch with one operation of each.\<close>

definition mutating_actions :: "string list" where
  "mutating_actions = [''create'', ''update'', ''delete'', ''rename'']"

definition mutating_batch :: "json list" where
  "mutating_batch =
     [JObject [(''action'', JString ''create''), (''path'', JString ''/a.ts''),
               (''content'', JString ''x'')],
      JObject [(''action'', JString ''update''), (''path'', JString ''/a.ts''),
               (''content'', JString ''y'')],
      JObject [(''action'', JString ''rename''), (''path'', JString ''/a.ts''),
               (''newName'', JString ''b.ts'')],
      JObject [(''action'', JString ''delete''), (''path'', JString ''/b.ts'')]]"

definition empty_panel :: panel where
  "empty_panel =
     \<lparr>messages = [], input = [], intake = None, intakeConfirmed = False,
      awaitingConfirmation = False, isLoading = False, pendingFileOps = None,
      showFileOpsDialog = False, pendingMilestoneOps = None, showMilestoneOpsDialog = False,
      opsLog = [], currentConversation = True, submissionId = Some ''sub-1'', stored = [],
      savedIntakes = [], titles = [], mentor_reports = [], toasts = []\<rparr>"

section \<open>The states that the panel can reach\<close>

text \<open>The welcome message that the component starts with. Its two dashes are U+2014,
  outside the code units of the model, and are written as hyphens.\<close>

definition welcome_text :: string where
  "welcome_text =
     ''You are interacting with BODHIT - the Project-Skill Chatbot. My role: teach, guide, and evaluate your project work; I will NOT write code for you.''
     @ [LF, LF]
     @ ''Before I create milestones or give guidance, provide all of these inputs (I will NOT proceed until confirmed):''
     @ [LF] @ ''- Project idea (one-line description)''
     @ [LF] @ ''- Tech stack / language (primary)''
     @ [LF] @ ''- Skill level (beginner / intermediate / advanced)''
     @ [LF] @ ''- Timeline (weeks or target date)''
     @ [LF, LF] @ ''Please provide the four fields in one message in this format:''
     @ [LF] @ ''Project idea: ...'' @ [LF] @ ''Tech stack: ...''
     @ [LF] @ ''Skill level: ...'' @ [LF] @ ''Timeline: ...''
     @ [LF, LF]
     @ ''After you provide and confirm these, I will propose a numbered sequence of milestones. I will not produce runnable code - I will only explain concepts, ask guiding questions, and produce verifiable milestone plans.''"

text \<open>The initial values of the hooks, for a component with or without a conversation and
  with the property \<open>submissionId\<close>.\<close>

definition initial_panel :: "bool \<Rightarrow> string option \<Rightarrow> panel" where
  "initial_panel conv sid =
     \<lparr>messages = [\<lparr>msg_id = ''1'', msg_role = Assistant, msg_content = welcome_text,
                    msg_type = Some Explanation\<rparr>],
      input = [], intake = None, intakeConfirmed = False, awaitingConfirmation = False,
      isLoading = False, pendingFileOps = None, showFileOpsDialog = False,
      pendingMilestoneOps = None, showMilestoneOpsDialog = False, opsLog = [],
      currentConversation = conv, submissionId = sid, stored = [], savedIntakes = [],
      titles = [], mentor_reports = [], toasts = []\<rparr>"

text \<open>
  The events of the panel. The conversation and the property \<open>submissionId\<close> come from
  outside and may change; the user types, sends, opens and closes the dialogs, applies or
  cancels the staged operations; a request starts when \<open>handleSend\<close> goes on to
  \<open>streamChat\<close>, and while the panel is loading the shown messages change, until the
  request is refused, finishes or fails. The two rules for Apply allow any list of
  results, whatever the collaborators do.
\<close>

inductive reachable :: "runtime \<Rightarrow> panel \<Rightarrow> bool" for rt :: runtime where
  start: "reachable rt (initial_panel conv sid)"
| surroundings: "reachable rt s \<Longrightarrow>
           reachable rt (s\<lparr>currentConversation := conv, submissionId := sid\<rparr>)"
| typing: "reachable rt s \<Longrightarrow> reachable rt (s\<lparr>input := t\<rparr>)"
| send: "reachable rt s \<Longrightarrow> handleSend now s = (s', None) \<Longrightarrow> reachable rt s'"
| request: "reachable rt s \<Longrightarrow> handleSend now s = (s', Some tx) \<Longrightarrow>
           reachable rt (begin_request now s' tx)"
| streaming: "reachable rt s \<Longrightarrow> isLoading s \<Longrightarrow> reachable rt (s\<lparr>messages := ms\<rparr>)"
| refused: "reachable rt s \<Longrightarrow> isLoading s \<Longrightarrow>
           reachable rt ((http_error_toast st e s)\<lparr>isLoading := False\<rparr>)"
| finished: "reachable rt s \<Longrightarrow> isLoading s \<Longrightarrow>
           reachable rt (finalize rt (s\<lparr>isLoading := False\<rparr>) content)"
| failed: "reachable rt s \<Longrightarrow> isLoading s \<Longrightarrow>
           reachable rt (finalize rt ((connection_error s)\<lparr>isLoading := False\<rparr>) content)"
| file_dialog: "reachable rt s \<Longrightarrow> reachable rt (s\<lparr>showFileOpsDialog := b\<rparr>)"
| milestone_dialog: "reachable rt s \<Longrightarrow> reachable rt (s\<lparr>showMilestoneOpsDialog := b\<rparr>)"
| apply_files: "reachable rt s \<Longrightarrow>
           reachable rt (s\<lparr>opsLog := opsLog s @ [(now, applied)],
                           showFileOpsDialog := False, pendingFileOps := None\<rparr>)"
| apply_milestones: "reachable rt s \<Longrightarrow>
           reachable rt ((milestone_toast results s)
                           \<lparr>showMilestoneOpsDialog := False, pendingMilestoneOps := None\<rparr>)"
| cancel_files: "reachable rt s \<Longrightarrow> reachable rt (cancelFileOps s)"
| cancel_milestones: "reachable rt s \<Longrightarrow> reachable rt (cancelMilestoneOps s)"

section \<open>Concrete sessions\<close>

definition todo_text :: string where
  "todo_text = ''Project idea: Todo app'' @ [LF] @ ''Tech stack: React'' @ [LF]
     @ ''Skill level: beginner'' @ [LF] @ ''Timeline: 2 weeks''"

definition todo_intake :: intake_record where
  "todo_intake = \<lparr>projectIdea = ''Todo app'', techStack = ''React'',
     skillLevel = ''beginner'', timeline = ''2 weeks''\<rparr>"

definition blog_text :: string where
  "blog_text = ''timeframe: 1 month'' @ [CR, LF] @ ''so, here it is'' @ [CR, LF]
     @ ''PROJECT:   Blog'' @ [CR, LF] @ ''Skill: advanced'' @ [CR, LF] @ ''  Tech: Go  ''"

definition blog_intake :: intake_record where
  "blog_intake = \<lparr>projectIdea = ''Blog'', techStack = ''Go'',
     skillLevel = ''advanced'', timeline = ''1 month''\<rparr>"


text \<open>The panel after the user has sent \<open>todo_text\<close> as the first message.\<close>

definition parsed_panel :: panel where
  "parsed_panel = fst (handleSend 1 ((initial_panel True (Some ''sub-1''))\<lparr>input := todo_text\<rparr>))"

text \<open>The panel after the user has confirmed with \<^verbatim>\<open>yes\<close>, and the panel while the
  answer to the next message is loading.\<close>

definition confirmed_panel :: panel where
  "confirmed_panel = fst (handleSend 2 (parsed_panel\<lparr>input := ''yes''\<rparr>))"


section \<open>Concrete responses\<close>




section \<open>Properties of the stream ingestor\<close>

lemma find_sub_bound: "find_sub sub s = Some k \<Longrightarrow> k + length sub \<le> length s"
proof (induction s arbitrary: k)
  case Nil
  then show ?case by (simp split: if_splits)
next
  case (Cons c cs)
  show ?case
  proof (cases "prefix sub (c # cs)")
    case True
    with Cons.prems show ?thesis by (auto dest: prefix_length_le)
  next
    case False
    with Cons.prems obtain j where "find_sub sub cs = Some j" "k = Suc j" by auto
    with Cons.IH show ?thesis by fastforce
  qed
qed

lemma find_char_None: "find_sub [c] s = None \<Longrightarrow> c \<notin> set s"
  by (induction s) (auto split: if_splits)

lemma find_char_Some:
  "find_sub [c] s = Some i \<Longrightarrow> s = take i s @ c # drop (Suc i) s \<and> c \<notin> set (take i s)"
proof (induction s arbitrary: i)
  case Nil
  then show ?case by simp
next
  case (Cons x xs)
  show ?case
  proof (cases "x = c")
    case True
    with Cons.prems show ?thesis by simp
  next
    case False
    with Cons.prems obtain j where j: "find_sub [c] xs = Some j" "i = Suc j" by auto
    from Cons.IH [OF j(1)] False j(2) show ?thesis by simp
  qed
qed

lemma indexOf_LF_None: "indexOf s [LF] 0 = None \<Longrightarrow> LF \<notin> set s"
  by (simp add: indexOf_def find_char_None)

lemma indexOf_LF_Some:
  "indexOf s [LF] 0 = Some i \<Longrightarrow> s = take i s @ LF # drop (Suc i) s \<and> LF \<notin> set (take i s)"
  using find_char_Some [of LF s i] by (auto simp: indexOf_def)

lemma split_on_not_Nil [simp]: "split_on c s \<noteq> []"
  by (induction s) (auto split: list.splits)

lemma split_on_append:
  "c \<notin> set l \<Longrightarrow> split_on c (l @ c # rest) = l # split_on c rest"
  by (induction l) auto

lemma split_on_set: "l \<in> set (split_on c s) \<Longrightarrow> set l \<subseteq> set s"
proof (induction s arbitrary: l)
  case Nil
  then show ?case by simp
next
  case (Cons x xs)
  obtain l0 ls where sp: "split_on c xs = l0 # ls"
    by (cases "split_on c xs") simp_all
  have "set l0 \<subseteq> set xs" "\<forall>k \<in> set ls. set k \<subseteq> set xs"
    using Cons.IH sp by simp_all
  with Cons.prems sp show ?case
    by (auto split: if_splits)
qed

lemma dropWhile_all: "(\<forall>x \<in> set (dropWhile P s). P x) \<longleftrightarrow> (\<forall>x \<in> set s. P x)"
  by (induction s) auto

lemma trim_Nil_iff: "trim s = [] \<longleftrightarrow> (\<forall>c \<in> set s. is_space c)"
  by (simp add: trim_def dropWhile_eq_Nil_conv dropWhile_all)

lemma flushLine_content:
  "assistantContent (flushLine rt aid st raw) = assistantContent st @ line_text rt raw"
proof (cases "raw = []")
  case True
  then show ?thesis
    by (simp add: flushLine_def line_text_def strip_cr_def endsWith_def trim_def)
next
  case False
  then show ?thesis
    by (simp add: flushLine_def line_text_def Let_def split: option.splits)
qed

lemma foldl_flushLine_content:
  "assistantContent (foldl (flushLine rt aid) st ls)
     = assistantContent st @ concat (map (line_text rt) ls)"
  by (induction ls arbitrary: st) (simp_all add: flushLine_content)

lemma line_text_spaces: "\<forall>c \<in> set l. is_space c \<Longrightarrow> line_text rt l = []"
proof -
  assume a: "\<forall>c \<in> set l. is_space c"
  have "set (strip_cr l) \<subseteq> set l"
    by (auto simp: strip_cr_def dest: in_set_butlastD)
  with a have "trim (strip_cr l) = []" by (auto simp: trim_Nil_iff)
  then show ?thesis by (simp add: line_text_def Let_def)
qed

lemma flush_text_spaces: "trim buf = [] \<Longrightarrow> flush_text rt buf = []"
proof -
  assume "trim buf = []"
  then have a: "\<forall>c \<in> set buf. is_space c" by (simp add: trim_Nil_iff)
  have "line_text rt l = []" if "l \<in> set (split_on LF buf)" for l
    using split_on_set [OF that] a by (intro line_text_spaces) blast
  then show ?thesis by (simp add: flush_text_def)
qed

lemma finalFlush_content:
  "assistantContent (finalFlush rt aid st)
     = assistantContent st @ flush_text rt (textBuffer st)"
  by (simp add: finalFlush_def foldl_flushLine_content flush_text_def [symmetric] flush_text_spaces)

lemma flush_text_line:
  "LF \<notin> set l \<Longrightarrow> flush_text rt (l @ LF # rest) = line_text rt l @ flush_text rt rest"
  by (simp add: flush_text_def split_on_append)

lemma trim_snoc_space: "is_space c \<Longrightarrow> trim (xs @ [c]) = trim xs"
proof (cases "\<forall>x \<in> set xs. is_space x")
  case True
  assume "is_space c"
  with True have "trim (xs @ [c]) = []" "trim xs = []" by (simp_all add: trim_Nil_iff)
  then show ?thesis by simp
next
  case False
  assume "is_space c"
  with False show ?thesis by (auto simp: trim_def dropWhile_append1)
qed

lemma data_line_long:
  "startsWith line ''data: '' \<Longrightarrow> endsWith line [CR] \<Longrightarrow> drop 6 line \<noteq> [] \<and> last (drop 6 line) = CR"
  by (auto simp: startsWith_def endsWith_def prefix_def suffix_def CR_def Cons_eq_append_conv)

lemma strip_cr_payload:
  assumes "startsWith line ''data: ''"
  shows "trim (drop 6 (strip_cr line)) = trim (drop 6 line)"
proof (cases "endsWith line [CR]")
  case False
  then show ?thesis by (simp add: strip_cr_def)
next
  case True
  from data_line_long [OF assms True] obtain ys where ys: "drop 6 line = ys @ [CR]"
    by (metis append_butlast_last_id)
  have "drop 6 (butlast line) = butlast (drop 6 line)" by (simp add: drop_butlast)
  with ys True show ?thesis by (simp add: strip_cr_def trim_snoc_space is_space_def CR_def)
qed

lemma data_line_facts:
  assumes "startsWith raw ''data: ''"
  shows "startsWith (strip_cr raw) ''data: ''" and "\<not> startsWith (strip_cr raw) '':''"
    and "trim (strip_cr raw) \<noteq> []"
proof -
  from assms obtain r where r: "raw = ''data: '' @ r" by (auto simp: startsWith_def prefix_def)
  show p: "startsWith (strip_cr raw) ''data: ''"
  proof (cases "endsWith raw [CR]")
    case False
    with assms show ?thesis by (simp add: strip_cr_def)
  next
    case True
    with r have "r \<noteq> []" by (auto simp: endsWith_def suffix_def CR_def)
    with r have "butlast raw = ''data: '' @ butlast r" by (simp add: butlast_append)
    with True show ?thesis by (simp add: strip_cr_def startsWith_def)
  qed
  then obtain q where q: "strip_cr raw = ''data: '' @ q" by (auto simp: startsWith_def prefix_def)
  then show "\<not> startsWith (strip_cr raw) '':''" by (simp add: startsWith_def)
  have "CHR ''d'' \<in> set (strip_cr raw)" "\<not> is_space CHR ''d''" using q by (simp_all add: is_space_def)
  then show "trim (strip_cr raw) \<noteq> []" unfolding trim_Nil_iff by blast
qed

lemma line_text_data:
  assumes "startsWith line ''data: ''"
  shows "line_text rt line =
     (if trim (drop 6 line) = ''[DONE]'' then []
      else (case parse_delta rt (trim (drop 6 line)) of
              None \<Rightarrow> []
            | Some content \<Rightarrow>
                if truthy content
                then (case ToString rt (the content) of None \<Rightarrow> [] | Some added \<Rightarrow> added)
                else []))"
  using data_line_facts [OF assms] strip_cr_payload [OF assms]
  by (simp add: line_text_def Let_def)

lemma set_strip_cr: "set (strip_cr l) \<subseteq> set l"
  by (auto simp: strip_cr_def dest: in_set_butlastD)

lemma processLines_flush:
  "assistantContent (processLines rt aid st)
       @ flush_text rt (textBuffer (processLines rt aid st) @ sfx)
     = assistantContent st @ flush_text rt (textBuffer st @ sfx)"
proof (induction rt aid st rule: processLines.induct)
  case (1 rt aid st)
  show ?case
  proof (cases "indexOf (textBuffer st) [LF] 0")
    case None
    then have "processLines rt aid st = st" by (subst processLines.simps) simp
    then show ?thesis by simp
  next
    case (Some i)
    define l0 where "l0 = slice (textBuffer st) 0 i"
    define rest where "rest = drop (i + 1) (textBuffer st)"
    define line where "line = strip_cr l0"
    define st1 where "st1 = st\<lparr>textBuffer := rest\<rparr>"
    have buf: "textBuffer st = l0 @ LF # rest" and nl: "LF \<notin> set l0"
      using indexOf_LF_Some [OF Some] by (simp_all add: l0_def rest_def slice_def)
    have nl': "LF \<notin> set line" using nl set_strip_cr [of l0] by (auto simp: line_def)
    have old: "flush_text rt (textBuffer st @ sfx)
        = line_text rt l0 @ flush_text rt (rest @ sfx)"
      using flush_text_line [OF nl, of rt "rest @ sfx"] by (simp add: buf)
    note pl = processLines.simps [of rt aid st]
    consider (skip) "startsWith line '':'' \<or> trim line = [] \<or> \<not> startsWith line ''data: ''"
      | (sentinel) "\<not> (startsWith line '':'' \<or> trim line = [])" "startsWith line ''data: ''"
          "trim (drop 6 line) = ''[DONE]''"
      | (fail) "\<not> (startsWith line '':'' \<or> trim line = [])" "startsWith line ''data: ''"
          "trim (drop 6 line) \<noteq> ''[DONE]''" "parse_delta rt (trim (drop 6 line)) = None"
      | (unconvertible) content where "\<not> (startsWith line '':'' \<or> trim line = [])"
          "startsWith line ''data: ''" "trim (drop 6 line) \<noteq> ''[DONE]''"
          "parse_delta rt (trim (drop 6 line)) = Some content" "truthy content"
          "ToString rt (the content) = None"
      | (some) content where "\<not> (startsWith line '':'' \<or> trim line = [])"
          "startsWith line ''data: ''" "trim (drop 6 line) \<noteq> ''[DONE]''"
          "parse_delta rt (trim (drop 6 line)) = Some content"
          "truthy content \<longrightarrow> ToString rt (the content) \<noteq> None"
      by (cases "parse_delta rt (trim (drop 6 line))") auto
    then show ?thesis
    proof cases
      case skip
      then have eq: "processLines rt aid st = processLines rt aid st1"
        unfolding pl by (auto simp: Some Let_def l0_def rest_def line_def st1_def)
      have ltx: "line_text rt l0 = []"
        using skip by (auto simp: line_text_def Let_def line_def)
      have ih: "assistantContent (processLines rt aid st1)
           @ flush_text rt (textBuffer (processLines rt aid st1) @ sfx)
         = assistantContent st1 @ flush_text rt (textBuffer st1 @ sfx)"
        using skip "1.IH"(1) [OF Some refl refl] "1.IH"(2) [OF Some refl refl]
        by (auto simp: l0_def rest_def line_def st1_def)
      show ?thesis by (simp add: eq ih old ltx) (simp add: st1_def)
    next
      case sentinel
      then have eq: "processLines rt aid st = st1"
        unfolding pl by (simp add: Some Let_def l0_def rest_def line_def st1_def)
      have ltx: "line_text rt l0 = []"
        using sentinel by (simp add: line_text_def Let_def line_def)
      show ?thesis by (simp add: eq old ltx) (simp add: st1_def)
    next
      case fail
      then have eq: "processLines rt aid st = st1\<lparr>textBuffer := line @ [LF] @ rest\<rparr>"
        unfolding pl by (simp add: Some Let_def l0_def rest_def line_def st1_def)
      have ltx: "line_text rt l0 = []"
        using fail by (simp add: line_text_def Let_def line_def)
      have "line_text rt line = []"
        using fail by (simp add: line_text_data)
      then have new: "flush_text rt (line @ LF # rest @ sfx) = flush_text rt (rest @ sfx)"
        using flush_text_line [OF nl', of rt "rest @ sfx"] by simp
      show ?thesis by (simp add: eq old ltx new) (simp add: st1_def)
    next
      case unconvertible
      then have eq: "processLines rt aid st = st1\<lparr>textBuffer := line @ [LF] @ rest\<rparr>"
        unfolding pl by (simp add: Some Let_def l0_def rest_def line_def st1_def)
      have ltx: "line_text rt l0 = []"
        using unconvertible by (simp add: line_text_def Let_def line_def)
      have "line_text rt line = []"
        using unconvertible by (simp add: line_text_data)
      then have new: "flush_text rt (line @ LF # rest @ sfx) = flush_text rt (rest @ sfx)"
        using flush_text_line [OF nl', of rt "rest @ sfx"] by simp
      show ?thesis by (simp add: eq old ltx new) (simp add: st1_def)
    next
      case some
      show ?thesis
      proof (cases "truthy content")
        case False
        with some have eq: "processLines rt aid st = processLines rt aid st1"
          unfolding pl by (simp add: Some Let_def l0_def rest_def line_def st1_def)
        have ltx: "line_text rt l0 = []"
          using some False by (simp add: line_text_def Let_def line_def)
        have ih: "assistantContent (processLines rt aid st1)
             @ flush_text rt (textBuffer (processLines rt aid st1) @ sfx)
           = assistantContent st1 @ flush_text rt (textBuffer st1 @ sfx)"
          using some False "1.IH"(4) [OF Some refl refl _ _ refl _ some(4) [unfolded line_def l0_def]]
          by (simp add: l0_def rest_def line_def st1_def)
        show ?thesis by (simp add: eq ih old ltx) (simp add: st1_def)
      next
        case True
        with some(5) obtain added where added: "ToString rt (the content) = Some added" by auto
        define c where "c = assistantContent st1 @ added"
        define st2 where "st2 = st1\<lparr>assistantContent := c,
            shown := show_partial aid c (shown st1)\<rparr>"
        from some True added have eq: "processLines rt aid st = processLines rt aid st2"
          unfolding pl
          by (simp add: Some Let_def l0_def rest_def line_def st1_def st2_def c_def)
        have ltx: "line_text rt l0 = added"
          using some True added by (simp add: line_text_def Let_def line_def)
        have ih: "assistantContent (processLines rt aid st2)
             @ flush_text rt (textBuffer (processLines rt aid st2) @ sfx)
           = assistantContent st2 @ flush_text rt (textBuffer st2 @ sfx)"
          using some True
            "1.IH"(3) [OF Some refl refl _ _ refl _ some(4) [unfolded line_def l0_def] _
                         added [unfolded line_def l0_def] refl]
          by (simp add: l0_def rest_def line_def st1_def st2_def c_def)
        show ?thesis by (simp add: eq ih old ltx) (simp add: st2_def st1_def c_def)
      qed
    qed
  qed
qed

lemma readLoop_flush:
  "assistantContent (readLoop rt aid st chunks)
       @ flush_text rt (textBuffer (readLoop rt aid st chunks))
     = assistantContent st @ flush_text rt (textBuffer st @ concat chunks)"
proof (induction chunks arbitrary: st)
  case Nil
  then show ?case by simp
next
  case (Cons c cs)
  have "assistantContent (readLoop rt aid st (c # cs))
       @ flush_text rt (textBuffer (readLoop rt aid st (c # cs)))
     = assistantContent (processLines rt aid (st\<lparr>textBuffer := textBuffer st @ c\<rparr>))
       @ flush_text rt (textBuffer (processLines rt aid (st\<lparr>textBuffer := textBuffer st @ c\<rparr>))
            @ concat cs)"
    by (simp add: Cons.IH)
  also have "\<dots> = assistantContent st @ flush_text rt ((textBuffer st @ c) @ concat cs)"
    using processLines_flush [of rt aid "st\<lparr>textBuffer := textBuffer st @ c\<rparr>" "concat cs"]
    by simp
  finally show ?case by simp
qed

lemma ingest_content: "assistantContent (ingest rt aid msgs chunks) = flush_text rt (concat chunks)"
  using readLoop_flush [of rt aid "\<lparr>textBuffer = [], assistantContent = [], shown = msgs\<rparr>" chunks]
  by (simp add: ingest_def finalFlush_content)

text \<open>
  Claim C1, chunk-boundary invariance: for every response text and every way of cutting
  it into chunks, the read loop over the chunks followed by the final flush leaves the same
  \<open>assistantContent\<close> as the same text delivered as one chunk. This holds for every
  runtime, hence for every behaviour of \<^verbatim>\<open>JSON.parse\<close>, and from every list of
  shown messages.
\<close>

theorem chunk_boundary_invariance:
  "assistantContent (ingest rt assistantId msgs chunks)
     = assistantContent (ingest rt assistantId msgs [concat chunks])"
proof -
  have "assistantContent (ingest rt assistantId msgs chunks) = flush_text rt (concat chunks)"
    by (rule ingest_content)
  moreover have "assistantContent (ingest rt assistantId msgs [concat chunks])
      = flush_text rt (concat [concat chunks])"
    by (rule ingest_content)
  ultimately show ?thesis by simp
qed

lemma find_char_first: "c \<notin> set l \<Longrightarrow> find_sub [c] (l @ c # r) = Some (length l)"
  by (induction l) auto

text \<open>
  Claim C2, rebuffer on partial parse: when the read loop extracts a complete line that
  starts with \<^verbatim>\<open>data: \<close>, whose payload is not the sentinel \<^verbatim>\<open>[DONE]\<close> and
  fails to parse, the loop stops with the line (without its carriage return) and a line
  feed put back in front of the rest of the buffer; the content and the shown messages
  are unchanged and no error is reported. When the next chunk is appended, the first line
  that the loop extracts is this line again.
\<close>

theorem rebuffer_on_partial_parse:
  assumes "indexOf (textBuffer st) [LF] 0 = Some i"
    and "startsWith (slice (textBuffer st) 0 i) ''data: ''"
    and "trim (drop 6 (strip_cr (slice (textBuffer st) 0 i))) \<noteq> ''[DONE]''"
    and "JSON_parse rt (trim (drop 6 (strip_cr (slice (textBuffer st) 0 i)))) = None"
  shows "processLines rt assistantId st
           = st\<lparr>textBuffer := strip_cr (slice (textBuffer st) 0 i) @ [LF]
                                 @ drop (i + 1) (textBuffer st)\<rparr>
         \<and> indexOf (textBuffer (processLines rt assistantId st) @ chunk) [LF] 0
             = Some (length (strip_cr (slice (textBuffer st) 0 i)))
         \<and> slice (textBuffer (processLines rt assistantId st) @ chunk) 0
               (length (strip_cr (slice (textBuffer st) 0 i)))
             = strip_cr (slice (textBuffer st) 0 i)"
proof -
  define line where "line = strip_cr (slice (textBuffer st) 0 i)"
  note d = data_line_facts [OF assms(2), folded line_def]
  have pd: "parse_delta rt (trim (drop 6 line)) = None"
    using assms(4) by (simp add: parse_delta_def line_def)
  have eq: "processLines rt assistantId st
      = st\<lparr>textBuffer := line @ [LF] @ drop (i + 1) (textBuffer st)\<rparr>"
    using assms(1,3) d pd
    by (subst processLines.simps) (simp add: Let_def line_def [symmetric])
  have "LF \<notin> set (slice (textBuffer st) 0 i)"
    using indexOf_LF_Some [OF assms(1)] by (simp add: slice_def)
  then have nl: "LF \<notin> set line" using set_strip_cr [of "slice (textBuffer st) 0 i"]
    by (auto simp: line_def)
  have ix: "indexOf ((line @ [LF] @ drop (i + 1) (textBuffer st)) @ chunk) [LF] 0
      = Some (length line)"
    using find_char_first [OF nl] by (simp add: indexOf_def)
  have sl: "slice ((line @ [LF] @ drop (i + 1) (textBuffer st)) @ chunk) 0 (length line) = line"
    by (simp add: slice_def)
  show ?thesis
    unfolding line_def [symmetric] eq using ix sl by simp
qed

theorem rebuffer_on_partial_parse_witness:
  "indexOf (textBuffer broken_buffer) [LF] 0 = Some 12
   \<and> startsWith (slice (textBuffer broken_buffer) 0 12) ''data: ''
   \<and> trim (drop 6 (strip_cr (slice (textBuffer broken_buffer) 0 12))) \<noteq> ''[DONE]''
   \<and> JSON_parse engine (trim (drop 6 (strip_cr (slice (textBuffer broken_buffer) 0 12)))) = None
   \<and> processLines engine ''2'' broken_buffer
       = broken_buffer\<lparr>textBuffer := ''data: {\"cho'' @ [LF] @ ''data: {}'' @ [LF]\<rparr>"
proof -
  have h1: "indexOf (textBuffer broken_buffer) [LF] 0 = Some 12" by code_simp
  have h2: "startsWith (slice (textBuffer broken_buffer) 0 12) ''data: ''" by code_simp
  have h3: "trim (drop 6 (strip_cr (slice (textBuffer broken_buffer) 0 12))) \<noteq> ''[DONE]''"
    by code_simp
  have h4: "JSON_parse engine (trim (drop 6 (strip_cr (slice (textBuffer broken_buffer) 0 12))))
      = None" by code_simp
  have l: "strip_cr (slice (textBuffer broken_buffer) 0 12) = ''data: {\"cho''" by code_simp
  have r: "drop (12 + 1) (textBuffer broken_buffer) = ''data: {}'' @ [LF]" by code_simp
  note th = rebuffer_on_partial_parse [OF h1 h2 h3 h4, of "''2''" "[]", unfolded l r]
  show ?thesis
    by (intro conjI) (rule h1 h2 h3 h4 th [THEN conjunct1])+
qed

section \<open>Properties of the operation dispatcher\<close>






lemma file_op_try_create:
  "op \<noteq> JNull \<Longrightarrow> get_prop op ''action'' = Some (JString ''create'') \<Longrightarrow>
   file_op_try rt fs sv now w op =
     (case fs of
        None \<Rightarrow> (w, Inr Ok)
      | Some api \<Rightarrow>
          called (createFile api (get_prop op ''path'')
                    (js_or (get_prop op ''content'') (Some (JString [])))
                    (js_or (get_prop op ''language'') (Some (JString ''text''))) w))"
  by (simp add: file_op_try_def)

lemma file_op_try_update:
  "op \<noteq> JNull \<Longrightarrow> get_prop op ''action'' = Some (JString ''update'') \<Longrightarrow>
   file_op_try rt fs sv now w op =
     (case fs of
        None \<Rightarrow> (w, Inr Ok)
      | Some api \<Rightarrow>
          called (updateFile api (get_prop op ''path'')
                    (js_or (get_prop op ''content'') (Some (JString []))) w))"
  by (simp add: file_op_try_def)

lemma file_op_try_delete:
  "op \<noteq> JNull \<Longrightarrow> get_prop op ''action'' = Some (JString ''delete'') \<Longrightarrow>
   file_op_try rt fs sv now w op =
     (case fs of
        None \<Rightarrow> (w, Inr Ok)
      | Some api \<Rightarrow>
          called (deleteFile api (get_prop op ''path'') (truthy (get_prop op ''recursive'')) w))"
  by (simp add: file_op_try_def)

lemma file_op_try_rename:
  "op \<noteq> JNull \<Longrightarrow> get_prop op ''action'' = Some (JString ''rename'') \<Longrightarrow>
   file_op_try rt fs sv now w op =
     (case fs of
        None \<Rightarrow> (w, Inr Ok)
      | Some api \<Rightarrow>
          called (renameFile api (get_prop op ''path'')
                    (js_or (get_prop op ''newName'') (get_prop op ''newPath'')) w))"
  by (simp add: file_op_try_def)








lemma file_op_try_no_fs:
  assumes "recognized mutating_actions op"
  shows "file_op_try rt None sv now w op = (w, Inr Ok)"
proof -
  from assms obtain a where a: "get_prop op ''action'' = Some (JString a)"
      and m: "a \<in> set mutating_actions"
    by (auto simp: recognized_def split: option.splits json.splits)
  from a have nn: "op \<noteq> JNull" by auto
  from m have "a = ''create'' \<or> a = ''update'' \<or> a = ''delete'' \<or> a = ''rename''"
    by (simp add: mutating_actions_def)
  then show ?thesis
  proof (elim disjE)
    assume "a = ''create''"
    with a show ?thesis by (simp add: file_op_try_create [OF nn])
  next
    assume "a = ''update''"
    with a show ?thesis by (simp add: file_op_try_update [OF nn])
  next
    assume "a = ''delete''"
    with a show ?thesis by (simp add: file_op_try_delete [OF nn])
  next
    assume "a = ''rename''"
    with a show ?thesis by (simp add: file_op_try_rename [OF nn])
  qed
qed

lemma apply_file_ops_no_fs:
  "\<forall>op \<in> set ops. recognized mutating_actions op \<Longrightarrow>
   apply_file_ops rt None sv now w ops
     = (w, map (\<lambda>op. \<lparr>operation = op, op_status = Ok, op_error = None\<rparr>) ops)"
  by (induction ops) (simp_all add: apply_file_op_def file_op_try_no_fs caught_def)

text \<open>
  Claim C10: without a file system (\<open>fs\<close> is \<^verbatim>\<open>null\<close>), \<open>applyFileOps\<close> on a batch of
  create, update, delete and rename operations records \<^verbatim>\<open>ok\<close> for every one of them and
  calls no collaborator: the world outside the component is the one before. Hence a list
  of results that are all \<^verbatim>\<open>ok\<close> does not tell that any file has changed.
\<close>

theorem ok_without_file_system:
  assumes "\<forall>op \<in> set ops. recognized mutating_actions op"
  shows "applyFileOps rt None sv now (w, s) (Some (JArray ops))
           = (w, s\<lparr>opsLog := opsLog s @
                       [(now, map (\<lambda>op. \<lparr>operation = op, op_status = Ok, op_error = None\<rparr>) ops)],
                    showFileOpsDialog := False, pendingFileOps := None\<rparr>)"
  using apply_file_ops_no_fs [OF assms, of rt sv now w]
  by (simp add: applyFileOps_def as_operations_def)

theorem ok_without_file_system_witness:
  "list_all (recognized mutating_actions) mutating_batch
   \<and> fst (applyFileOps engine None demo_services 7 ([], empty_panel) (Some (JArray mutating_batch)))
       = []
   \<and> map op_status
         (snd (last (opsLog (snd (applyFileOps engine None demo_services 7 ([], empty_panel)
                                     (Some (JArray mutating_batch)))))))
       = [Ok, Ok, Ok, Ok]"
proof -
  have h: "list_all (recognized mutating_actions) mutating_batch" by code_simp
  then have h': "\<forall>op \<in> set mutating_batch. recognized mutating_actions op"
    by (simp add: list_all_iff)
  note th = ok_without_file_system [OF h', of engine demo_services 7 "[]" empty_panel]
  have m: "map op_status (map (\<lambda>op. \<lparr>operation = op, op_status = Ok, op_error = None\<rparr>)
      mutating_batch) = [Ok, Ok, Ok, Ok]"
    by (simp add: mutating_batch_def)
  show ?thesis using h m by (simp add: th)
qed

subsection \<open>What one turn of a loop records\<close>




















subsection \<open>What the other turns record\<close>









subsection \<open>Fault isolation\<close>




section \<open>Properties of the intake collector\<close>

lemma addMessage_fields [simp]:
  "intake (addMessage r c ty fo mr s) = intake s"
  "intakeConfirmed (addMessage r c ty fo mr s) = intakeConfirmed s"
  "awaitingConfirmation (addMessage r c ty fo mr s) = awaitingConfirmation s"
  "messages (addMessage r c ty fo mr s) = messages s"
  "currentConversation (addMessage r c ty fo mr s) = currentConversation s"
  "savedIntakes (addMessage r c ty fo mr s) = savedIntakes s"
  "mentor_reports (addMessage r c ty fo mr s) = mentor_reports s"
  "submissionId (addMessage r c ty fo mr s) = submissionId s"
  "isLoading (addMessage r c ty fo mr s) = isLoading s"
  by (simp_all add: addMessage_def)

lemma reply_fields [simp]:
  "intake (reply now text answer ty s) = intake s"
  "intakeConfirmed (reply now text answer ty s) = intakeConfirmed s"
  "awaitingConfirmation (reply now text answer ty s) = awaitingConfirmation s"
  "messages (reply now text answer ty s)
     = messages s @ [user_message now text, assistant_message (now + 1) answer ty]"
  "currentConversation (reply now text answer ty s) = currentConversation s"
  "savedIntakes (reply now text answer ty s) = savedIntakes s"
  "input (reply now text answer ty s) = []"
  "isLoading (reply now text answer ty s) = isLoading s"
  by (simp_all add: reply_def Let_def)

lemma refuse_fields [simp]:
  "intake (refuse now text s) = intake s"
  "intakeConfirmed (refuse now text s) = intakeConfirmed s"
  "awaitingConfirmation (refuse now text s) = awaitingConfirmation s"
  "messages (refuse now text s)
     = messages s @ [user_message now text, assistant_message now refusal_text Warning]"
  "savedIntakes (refuse now text s) = savedIntakes s"
  "input (refuse now text s) = []"
  "isLoading (refuse now text s) = isLoading s"
  by (simp_all add: refuse_def Let_def)

lemma titled_fields [simp]:
  "intake (titled s) = intake s"
  "intakeConfirmed (titled s) = intakeConfirmed s"
  "awaitingConfirmation (titled s) = awaitingConfirmation s"
  "messages (titled s) = messages s"
  "currentConversation (titled s) = currentConversation s"
  "savedIntakes (titled s) = savedIntakes s"
  "isLoading (titled s) = isLoading s"
  "input (titled s) = input s"
  by (simp_all add: titled_def)

lemma intake_step_fields [simp]:
  "currentConversation (intake_step now text s) = currentConversation s"
  "input (intake_step now text s) = []"
  "isLoading (intake_step now text s) = isLoading s"
  by (simp_all add: intake_step_def Let_def split: option.splits)

lemma handleSend_ignored:
  "trim (input s) = [] \<or> isLoading s \<Longrightarrow> handleSend now s = (s, None)"
  by (simp add: handleSend_def)

lemma handleSend_handled:
  assumes "trim (input s) \<noteq> []" and "\<not> isLoading s"
  shows "handleSend now s =
     (if is_code_request (trim (input s)) then (refuse now (trim (input s)) (titled s), None)
      else if \<not> intakeConfirmed s then (intake_step now (trim (input s)) (titled s), None)
      else (titled s, Some (trim (input s))))"
  using assms by (simp add: handleSend_def Let_def)



lemma canon_char_cases:
  assumes "canon_char c = d"
  shows "c = d \<or> (97 \<le> (of_char c :: nat) \<and> (of_char c :: nat) \<le> 122
                   \<and> (of_char d :: nat) = of_char c - 32)"
proof (cases "97 \<le> (of_char c :: nat) \<and> (of_char c :: nat) \<le> 122")
  case False
  with assms show ?thesis by (auto simp: canon_char_def Let_def)
next
  case True
  with assms have "d = char_of ((of_char c :: nat) - 32)" by (simp add: canon_char_def Let_def)
  then have "(of_char d :: nat) = (of_char c - 32) mod 256" by simp
  moreover from True have "(of_char c :: nat) - 32 < 256" by arith
  ultimately have "(of_char d :: nat) = of_char c - 32" by simp
  with True show ?thesis by simp
qed

lemma canon_char_letter:
  assumes "canon_char c = up" and "(of_char up :: nat) + 32 = of_char low"
  shows "c = low \<or> c = up"
  using canon_char_cases [OF assms(1)]
proof
  assume "c = up" then show ?thesis by simp
next
  assume "97 \<le> (of_char c :: nat) \<and> (of_char c :: nat) \<le> 122
      \<and> (of_char up :: nat) = of_char c - 32"
  with assms(2) have "(of_char c :: nat) = of_char low" by arith
  then have "c = low" by (rule of_char_eqI)
  then show ?thesis by simp
qed

lemma exact_no:
  assumes "test_exact_i ''no'' t"
  shows "t = ''no'' \<or> t = ''nO'' \<or> t = ''No'' \<or> t = ''NO''"
proof -
  have "map canon_char ''no'' = ''NO''" by code_simp
  with assms have m: "map canon_char t = ''NO''" by (simp add: test_exact_i_def)
  then have "length t = Suc (Suc 0)" using length_map [of canon_char t] by simp
  then obtain a b where t: "t = [a, b]" by (auto simp: length_Suc_conv)
  with m have ab: "canon_char a = CHR ''N''" "canon_char b = CHR ''O''" by simp_all
  have "a = CHR ''n'' \<or> a = CHR ''N''" by (rule canon_char_letter [OF ab(1)]) simp
  moreover have "b = CHR ''o'' \<or> b = CHR ''O''" by (rule canon_char_letter [OF ab(2)]) simp
  ultimately show ?thesis unfolding t by blast
qed

lemma find_sub_short: "length s < length sub \<Longrightarrow> find_sub sub s = None"
proof (induction s)
  case Nil
  then show ?case by auto
next
  case (Cons c cs)
  then have "\<not> prefix sub (c # cs)" by (auto dest: prefix_length_le)
  with Cons show ?case by simp
qed

lemma short_is_no_code_request: "length t < 13 \<Longrightarrow> \<not> is_code_request t"
  by (simp add: is_code_request_def codeRequestPatterns_def test_literal_i_def find_sub_short)

lemma split_lines_not_Nil: "split_lines s \<noteq> []"
proof (cases s)
  case Nil
  then show ?thesis by (simp add: split_lines.simps)
next
  case (Cons x xs)
  show ?thesis
    unfolding Cons split_lines.simps
    by (cases xs; cases "split_lines xs") simp_all
qed

lemma split_lines_set: "l \<in> set (split_lines s) \<Longrightarrow> set l \<subseteq> set s"
proof (induction s arbitrary: l rule: split_lines.induct)
  case 1
  then show ?case by (simp add: split_lines.simps)
next
  case (2 x xs)
  show ?case
  proof (cases "x = LF")
    case True
    then have "split_lines (x # xs) = [] # split_lines xs" by (simp add: split_lines.simps)
    with "2.prems" "2.IH"(1) [OF True] show ?thesis by auto
  next
    case nlf: False
    show ?thesis
    proof (cases xs)
      case Nil
      with nlf have "split_lines (x # xs) = [[x]]" by (simp add: split_lines.simps)
      with "2.prems" show ?thesis by simp
    next
      case (Cons y ys)
      show ?thesis
      proof (cases "x = CR \<and> y = LF")
        case True
        with nlf Cons have "split_lines (x # xs) = [] # split_lines ys"
          by (simp add: split_lines.simps)
        with "2.prems" "2.IH"(2) [OF nlf Cons True] Cons show ?thesis by auto
      next
        case False
        obtain l0 ls where sp: "split_lines xs = l0 # ls"
          using split_lines_not_Nil [of xs] by (cases "split_lines xs") simp_all
        from False nlf Cons sp have eq: "split_lines (x # xs) = (x # l0) # ls"
          by (subst split_lines.simps) simp
        have "set l0 \<subseteq> set xs" "\<forall>k \<in> set ls. set k \<subseteq> set xs"
          using "2.IH"(3) [OF nlf Cons False] sp by simp_all
        with "2.prems" eq show ?thesis by auto
      qed
    qed
  qed
qed

lemma trim_set: "set (trim s) \<subseteq> set s"
  by (auto simp: trim_def dest!: set_dropWhileD)

lemma match_no_colon: "CHR '':'' \<notin> set l \<Longrightarrow> match_key_value l = None"
proof -
  assume "CHR '':'' \<notin> set l"
  then have "dropWhile (\<lambda>c. c \<noteq> CHR '':'') l = []" by (simp add: dropWhile_eq_Nil_conv) blast
  then show ?thesis by (simp add: match_key_value_def Let_def)
qed

lemma collect_no_match:
  "\<forall>l \<in> set ls. match_key_value l = None \<Longrightarrow> collect_fields m ls = m"
  by (induction ls arbitrary: m) simp_all

lemma parse_no_colon:
  assumes "CHR '':'' \<notin> set t"
  shows "parseIntakeFromText t = None"
proof -
  have "match_key_value l = None"
    if "l \<in> set (filter (\<lambda>l. l \<noteq> []) (map trim (split_lines t)))" for l
  proof -
    from that obtain k where "k \<in> set (split_lines t)" "l = trim k" by auto
    with split_lines_set [of k t] trim_set [of k] assms have "CHR '':'' \<notin> set l" by blast
    then show ?thesis by (rule match_no_colon)
  qed
  then have "collect_fields Map.empty (filter (\<lambda>l. l \<noteq> []) (map trim (split_lines t))) = Map.empty"
    by (intro collect_no_match) blast
  then show ?thesis by (simp add: parseIntakeFromText_def either_field_def)
qed

lemma no_is_no_intake:
  assumes "test_exact_i ''no'' t"
  shows "parseIntakeFromText t = None" and "\<not> is_code_request t"
proof -
  from exact_no [OF assms] have "CHR '':'' \<notin> set t" "length t < 13" by auto
  then show "parseIntakeFromText t = None" "\<not> is_code_request t"
    by (simp_all add: parse_no_colon short_is_no_code_request)
qed

lemma no_is_not_yes: "test_exact_i ''no'' t \<Longrightarrow> \<not> test_exact_i ''yes'' t"
  by (auto simp: test_exact_i_def dest: map_eq_imp_length_eq)

lemma exact_length: "test_exact_i lit t \<Longrightarrow> length t = length lit"
  by (auto simp: test_exact_i_def dest: map_eq_imp_length_eq)

lemma exact_no_colon:
  assumes "test_exact_i lit t" and "CHR '':'' \<notin> set (map canon_char lit)"
  shows "CHR '':'' \<notin> set t"
proof
  assume "CHR '':'' \<in> set t"
  then have "canon_char CHR '':'' \<in> set (map canon_char t)" by simp
  moreover have "canon_char CHR '':'' = CHR '':''" by code_simp
  moreover from assms(1) have "map canon_char t = map canon_char lit"
    by (simp add: test_exact_i_def)
  ultimately have "CHR '':'' \<in> set (map canon_char lit)" by metis
  with assms(2) show False by contradiction
qed

lemma yes_is_no_intake:
  assumes "test_exact_i ''yes'' t"
  shows "parseIntakeFromText t = None" and "\<not> is_code_request t" and "t \<noteq> []"
proof -
  have "CHR '':'' \<notin> set (map canon_char ''yes'')" by code_simp
  with assms have "CHR '':'' \<notin> set t" by (rule exact_no_colon)
  moreover from exact_length [OF assms] have l: "length t = 3" by simp
  ultimately show "parseIntakeFromText t = None" "\<not> is_code_request t"
    by (simp_all add: parse_no_colon short_is_no_code_request)
  from l show "t \<noteq> []" by auto
qed

lemma finalize_steps_fields [simp]:
  "intake (stage_file_ops f s) = intake s"
  "intakeConfirmed (stage_file_ops f s) = intakeConfirmed s"
  "awaitingConfirmation (stage_file_ops f s) = awaitingConfirmation s"
  "intake (stage_milestone_ops f s) = intake s"
  "intakeConfirmed (stage_milestone_ops f s) = intakeConfirmed s"
  "awaitingConfirmation (stage_milestone_ops f s) = awaitingConfirmation s"
  "intake (store_assistant c f m s) = intake s"
  "intakeConfirmed (store_assistant c f m s) = intakeConfirmed s"
  "awaitingConfirmation (store_assistant c f m s) = awaitingConfirmation s"
  "intake (save_mentor_report m s) = intake s"
  "intakeConfirmed (save_mentor_report m s) = intakeConfirmed s"
  "awaitingConfirmation (save_mentor_report m s) = awaitingConfirmation s"
  by (simp_all add: stage_file_ops_def stage_milestone_ops_def store_assistant_def
        save_mentor_report_def)

lemma finalize_fields [simp]:
  "intake (finalize rt s c) = intake s"
  "intakeConfirmed (finalize rt s c) = intakeConfirmed s"
  "awaitingConfirmation (finalize rt s c) = awaitingConfirmation s"
  by (simp_all add: finalize_def Let_def)

lemma add_toast_fields [simp]:
  "intake (add_toast t d v s) = intake s"
  "intakeConfirmed (add_toast t d v s) = intakeConfirmed s"
  "awaitingConfirmation (add_toast t d v s) = awaitingConfirmation s"
  "mentor_reports (add_toast t d v s) = mentor_reports s"
  "submissionId (add_toast t d v s) = submissionId s"
  "messages (add_toast t d v s) = messages s"
  "currentConversation (add_toast t d v s) = currentConversation s"
  "isLoading (add_toast t d v s) = isLoading s"
  by (simp_all add: add_toast_def)

lemma begin_request_fields [simp]:
  "intake (begin_request now s tx) = intake s"
  "intakeConfirmed (begin_request now s tx) = intakeConfirmed s"
  "awaitingConfirmation (begin_request now s tx) = awaitingConfirmation s"
  "isLoading (begin_request now s tx)"
  by (simp_all add: begin_request_def Let_def)

lemma streamChat_fields [simp]:
  "intake (streamChat rt now s tx resp) = intake s"
  "intakeConfirmed (streamChat rt now s tx resp) = intakeConfirmed s"
  "awaitingConfirmation (streamChat rt now s tx resp) = awaitingConfirmation s"
  by (cases resp; simp add: streamChat_def Let_def connection_error_def http_error_toast_def)+

lemma intake_step_confirmed:
  assumes "intakeConfirmed (intake_step now text s)" and "\<not> intakeConfirmed s"
  shows "test_exact_i ''yes'' text \<and> awaitingConfirmation s \<and> intake s \<noteq> None"
proof (cases "parseIntakeFromText text")
  case (Some p)
  with assms show ?thesis by (simp add: intake_step_def)
next
  case None
  with assms show ?thesis
    by (simp add: intake_step_def Let_def split: if_splits)
qed

lemma intake_step_exclusive:
  assumes "\<not> intakeConfirmed s"
  shows "\<not> (awaitingConfirmation (intake_step now text s) \<and> intakeConfirmed (intake_step now text s))"
proof (cases "parseIntakeFromText text")
  case (Some p)
  with assms show ?thesis by (simp add: intake_step_def)
next
  case None
  with assms show ?thesis
    by (simp add: intake_step_def Let_def split: if_splits)
qed

lemma handleSend_exclusive:
  assumes "\<not> (awaitingConfirmation s \<and> intakeConfirmed s)"
  shows "\<not> (awaitingConfirmation (fst (handleSend now s)) \<and> intakeConfirmed (fst (handleSend now s)))"
proof (cases "trim (input s) = [] \<or> isLoading s")
  case True
  with assms show ?thesis by (simp add: handleSend_ignored)
next
  case False
  then have eq: "handleSend now s =
     (if is_code_request (trim (input s)) then (refuse now (trim (input s)) (titled s), None)
      else if \<not> intakeConfirmed s then (intake_step now (trim (input s)) (titled s), None)
      else (titled s, Some (trim (input s))))"
    by (simp add: handleSend_handled)
  show ?thesis
  proof (cases "is_code_request (trim (input s))")
    case True
    with eq assms show ?thesis by simp
  next
    case ncr: False
    show ?thesis
    proof (cases "intakeConfirmed s")
      case True
      with eq ncr assms show ?thesis by simp
    next
      case False
      then have "\<not> intakeConfirmed (titled s)" by simp
      from intake_step_exclusive [OF this] eq ncr False show ?thesis by simp
    qed
  qed
qed

lemma handleSend_streams:
  assumes "handleSend now s = (s', Some tx)"
  shows "intakeConfirmed s \<and> \<not> isLoading s \<and> s' = titled s \<and> tx = trim (input s)"
proof (cases "trim (input s) = [] \<or> isLoading s")
  case True
  with assms show ?thesis by (simp add: handleSend_ignored)
next
  case False
  then have "handleSend now s =
     (if is_code_request (trim (input s)) then (refuse now (trim (input s)) (titled s), None)
      else if \<not> intakeConfirmed s then (intake_step now (trim (input s)) (titled s), None)
      else (titled s, Some (trim (input s))))"
    by (simp add: handleSend_handled)
  with assms False show ?thesis by (auto split: if_splits)
qed

lemma handleSend_loading:
  "isLoading (fst (handleSend now s)) = isLoading s"
proof (cases "trim (input s) = [] \<or> isLoading s")
  case True
  then show ?thesis by (simp add: handleSend_ignored)
next
  case False
  then show ?thesis by (simp add: handleSend_handled)
qed

lemma reachable_invariant:
  "reachable rt s \<Longrightarrow>
     \<not> (awaitingConfirmation s \<and> intakeConfirmed s) \<and> (isLoading s \<longrightarrow> intakeConfirmed s)"
proof (induction rule: reachable.induct)
  case (start conv sid)
  show ?case by (simp add: initial_panel_def)
next
  case (send s now s')
  from send.IH have ex: "\<not> (awaitingConfirmation s \<and> intakeConfirmed s)" by simp
  from send.hyps(2) have s': "s' = fst (handleSend now s)" by simp
  have "isLoading s' \<longrightarrow> intakeConfirmed s'"
  proof (cases "trim (input s) = [] \<or> isLoading s")
    case True
    with send.IH s' show ?thesis by (simp add: handleSend_ignored)
  next
    case False
    with handleSend_loading [of now s] s' show ?thesis by simp
  qed
  with handleSend_exclusive [OF ex, of now] s' show ?case by simp
next
  case (request s now s' tx)
  from handleSend_streams [OF request.hyps(2)] request.IH show ?case by simp
next
  case (refused s st e)
  then show ?case by (auto simp: http_error_toast_def)
next
  case (failed s content)
  then show ?case by (auto simp: connection_error_def)
next
  case (apply_milestones s results)
  then show ?case by (simp add: milestone_toast_def Let_def)
next
  case (cancel_files s)
  then show ?case by (simp add: cancelFileOps_def)
next
  case (cancel_milestones s)
  then show ?case by (simp add: cancelMilestoneOps_def)
qed auto

lemma reachable_exclusive:
  "reachable rt s \<Longrightarrow> \<not> (awaitingConfirmation s \<and> intakeConfirmed s)"
  by (simp add: reachable_invariant)

lemma reachable_awaiting_idle:
  "reachable rt s \<Longrightarrow> awaitingConfirmation s \<Longrightarrow> \<not> isLoading s"
  using reachable_invariant [of rt s] by blast

text \<open>A whole request, from the call of \<open>streamChat\<close> to its end, is a sequence of these
  events.\<close>

lemma reachable_streamChat:
  assumes "reachable rt s" and "handleSend now s = (s', Some tx)"
  shows "reachable rt (streamChat rt now s' tx resp)"
proof -
  let ?b = "begin_request now s' tx"
  have b: "reachable rt ?b" using assms by (rule reachable.request)
  have l: "isLoading ?b" by simp
  show ?thesis
  proof (cases resp)
    case FetchError
    with reachable.failed [OF b l, of "[]"] show ?thesis by (simp add: streamChat_def)
  next
    case (HttpError st e)
    with reachable.refused [OF b l, of st e] show ?thesis by (simp add: streamChat_def)
  next
    case NoBody
    with reachable.failed [OF b l, of "[]"] show ?thesis by (simp add: streamChat_def)
  next
    case (Body chunks bad)
    define st1 where "st1 = (let st = readLoop rt (decimal (now + 1))
         \<lparr>textBuffer = [], assistantContent = [], shown = messages ?b\<rparr> chunks
       in if bad then st else finalFlush rt (decimal (now + 1)) st)"
    have m: "reachable rt (?b\<lparr>messages := shown st1\<rparr>)" using b l by (rule reachable.streaming)
    have lm: "isLoading (?b\<lparr>messages := shown st1\<rparr>)" by simp
    show ?thesis
    proof (cases bad)
      case True
      with Body reachable.failed [OF m lm, of "assistantContent st1"] show ?thesis
        by (simp add: streamChat_def Let_def st1_def)
    next
      case False
      with Body reachable.finished [OF m lm, of "assistantContent st1"] show ?thesis
        by (simp add: streamChat_def Let_def st1_def)
    qed
  qed
qed

lemma handleSend_confirms:
  assumes "\<not> intakeConfirmed s" and "intakeConfirmed (fst (handleSend now s))"
  shows "test_exact_i ''yes'' (trim (input s)) \<and> awaitingConfirmation s \<and> intake s \<noteq> None
         \<and> \<not> isLoading s"
proof (cases "trim (input s) = [] \<or> isLoading s")
  case True
  with assms show ?thesis by (simp add: handleSend_ignored)
next
  case False
  then have eq: "handleSend now s =
     (if is_code_request (trim (input s)) then (refuse now (trim (input s)) (titled s), None)
      else if \<not> intakeConfirmed s then (intake_step now (trim (input s)) (titled s), None)
      else (titled s, Some (trim (input s))))"
    by (simp add: handleSend_handled)
  show ?thesis
  proof (cases "is_code_request (trim (input s))")
    case True
    with eq assms show ?thesis by simp
  next
    case ncr: False
    with eq assms have "intakeConfirmed (intake_step now (trim (input s)) (titled s))" by simp
    moreover from assms have "\<not> intakeConfirmed (titled s)" by simp
    ultimately have "test_exact_i ''yes'' (trim (input s)) \<and> awaitingConfirmation (titled s)
        \<and> intake (titled s) \<noteq> None"
      by (rule intake_step_confirmed)
    with False show ?thesis by simp
  qed
qed

lemma handleSend_no:
  assumes "awaitingConfirmation s" and "\<not> intakeConfirmed s" and "\<not> isLoading s"
    and "test_exact_i ''no'' (trim (input s))"
  shows "handleSend now s
     = (reply now (trim (input s)) reenter_text Explanation
          ((titled s)\<lparr>intake := None, awaitingConfirmation := False\<rparr>), None)"
proof -
  from exact_no [OF assms(4)] have ne: "trim (input s) \<noteq> []" by auto
  note n = no_is_no_intake [OF assms(4)] no_is_not_yes [OF assms(4)]
  from assms n show ?thesis
    by (simp add: handleSend_handled [OF ne assms(3)] intake_step_def)
qed

lemma apply_ops_confirmed [simp]:
  "intakeConfirmed (snd (applyFileOps rt fs sv now (w, s) ops)) = intakeConfirmed s"
  "intakeConfirmed (snd (applyMilestoneOps rt sv (w, s) ops)) = intakeConfirmed s"
  by (simp_all add: applyFileOps_def applyMilestoneOps_def split_def milestone_toast_def Let_def)

lemma handleSend_yes:
  assumes "awaitingConfirmation s" and "\<not> intakeConfirmed s" and "\<not> isLoading s"
    and "test_exact_i ''yes'' (trim (input s))" and "intake s \<noteq> None"
  shows "intakeConfirmed (fst (handleSend now s))"
    and "\<not> awaitingConfirmation (fst (handleSend now s))"
    and "intake (fst (handleSend now s)) = intake s"
    and "snd (handleSend now s) = None"
proof -
  note y = yes_is_no_intake [OF assms(4)]
  from assms y have eq: "handleSend now s
    = (let s1 = reply now (trim (input s)) confirmed_text Explanation
                  ((titled s)\<lparr>intakeConfirmed := True, awaitingConfirmation := False\<rparr>)
       in if currentConversation s1
          then s1\<lparr>savedIntakes := savedIntakes s1 @ [the (intake (titled s))]\<rparr>
          else s1, None)"
    by (simp add: handleSend_handled [OF y(3) assms(3)] intake_step_def)
  show "intakeConfirmed (fst (handleSend now s))"
    "\<not> awaitingConfirmation (fst (handleSend now s))"
    "intake (fst (handleSend now s)) = intake s"
    "snd (handleSend now s) = None"
    by (simp_all add: eq Let_def)
qed

lemma first_message:
  "handleSend 1 ((initial_panel True (Some ''sub-1''))\<lparr>input := todo_text\<rparr>)
     = (parsed_panel, None)"
proof -
  let ?s = "(initial_panel True (Some ''sub-1''))\<lparr>input := todo_text\<rparr>"
  have "trim todo_text \<noteq> []" by code_simp
  moreover have "\<not> isLoading ?s" "\<not> intakeConfirmed ?s" by (simp_all add: initial_panel_def)
  ultimately have "snd (handleSend 1 ?s) = None"
    by (simp add: handleSend_def Let_def)
  then show ?thesis by (simp add: parsed_panel_def prod_eq_iff)
qed

lemma parsed_panel_reply:
  "parsed_panel = reply 1 todo_text (parsed_intake_text todo_intake) Question
      ((titled ((initial_panel True (Some ''sub-1''))\<lparr>input := todo_text\<rparr>))
         \<lparr>intake := Some todo_intake, awaitingConfirmation := True\<rparr>)"
proof -
  let ?s = "(initial_panel True (Some ''sub-1''))\<lparr>input := todo_text\<rparr>"
  have t: "trim (input ?s) = todo_text" by code_simp
  have n: "todo_text \<noteq> []" by code_simp
  have c: "\<not> is_code_request todo_text" by code_simp
  have p: "parseIntakeFromText todo_text = Some todo_intake" by code_simp
  have l: "\<not> isLoading ?s" "\<not> intakeConfirmed ?s" by (simp_all add: initial_panel_def)
  have "parsed_panel = intake_step 1 todo_text (titled ?s)"
    unfolding parsed_panel_def using handleSend_handled [of ?s 1] t n c l by simp
  then show ?thesis by (simp add: intake_step_def p)
qed

lemma parsed_panel_fields [simp]:
  "awaitingConfirmation parsed_panel" "\<not> intakeConfirmed parsed_panel"
  "\<not> isLoading parsed_panel" "intake parsed_panel = Some todo_intake"
  by (simp_all add: parsed_panel_reply initial_panel_def)

lemma reachable_parsed_panel: "reachable rt parsed_panel"
proof -
  have "reachable rt ((initial_panel True (Some ''sub-1''))\<lparr>input := todo_text\<rparr>)"
    by (intro reachable.typing reachable.start)
  then show ?thesis using first_message by (rule reachable.send)
qed

text \<open>
  Claim C4, the confirmation of the intake. In every state that the panel can reach,
  \<open>awaitingConfirmation\<close> and \<open>intakeConfirmed\<close> are not both true. \<open>intakeConfirmed\<close>
  becomes true only in \<open>handleSend\<close>, on a message whose trimmed text is \<^verbatim>\<open>yes\<close> up to
  letter case, while \<open>awaitingConfirmation\<close> is true and an intake record is held: every
  other event (typing, the start, the progress and the end of a request, applying and
  cancelling operations) leaves it as it is. In a reachable state that awaits
  confirmation, a message whose trimmed text is \<^verbatim>\<open>no\<close> up to letter case sets \<open>intake\<close>
  to \<^verbatim>\<open>null\<close> and leaves the collector collecting: neither awaiting nor confirmed, and
  nothing is streamed.
\<close>

theorem intake_confirmation_machine:
  "(reachable rt s \<longrightarrow> \<not> (awaitingConfirmation s \<and> intakeConfirmed s))
   \<and> (\<not> intakeConfirmed s \<and> intakeConfirmed (fst (handleSend now s)) \<longrightarrow>
        test_exact_i ''yes'' (trim (input s)) \<and> awaitingConfirmation s \<and> intake s \<noteq> None)
   \<and> intakeConfirmed (s\<lparr>input := t\<rparr>) = intakeConfirmed s
   \<and> intakeConfirmed (begin_request now s tx) = intakeConfirmed s
   \<and> intakeConfirmed (s\<lparr>messages := ms\<rparr>) = intakeConfirmed s
   \<and> intakeConfirmed ((http_error_toast st e s)\<lparr>isLoading := False\<rparr>) = intakeConfirmed s
   \<and> intakeConfirmed (finalize rt (s\<lparr>isLoading := False\<rparr>) content) = intakeConfirmed s
   \<and> intakeConfirmed (finalize rt ((connection_error s)\<lparr>isLoading := False\<rparr>) content)
       = intakeConfirmed s
   \<and> intakeConfirmed (streamChat rt now s tx resp) = intakeConfirmed s
   \<and> intakeConfirmed (snd (applyFileOps rt fs sv now (w, s) ops)) = intakeConfirmed s
   \<and> intakeConfirmed (snd (applyMilestoneOps rt sv (w, s) ops)) = intakeConfirmed s
   \<and> intakeConfirmed (cancelFileOps s) = intakeConfirmed s
   \<and> intakeConfirmed (cancelMilestoneOps s) = intakeConfirmed s
   \<and> (reachable rt s \<and> awaitingConfirmation s \<and> test_exact_i ''no'' (trim (input s)) \<longrightarrow>
        intake (fst (handleSend now s)) = None
        \<and> \<not> awaitingConfirmation (fst (handleSend now s))
        \<and> \<not> intakeConfirmed (fst (handleSend now s))
        \<and> snd (handleSend now s) = None)"
proof (intro conjI impI)
  assume "reachable rt s"
  then show "\<not> (awaitingConfirmation s \<and> intakeConfirmed s)" by (rule reachable_exclusive)
next
  assume "\<not> intakeConfirmed s \<and> intakeConfirmed (fst (handleSend now s))"
  then show "test_exact_i ''yes'' (trim (input s))" "awaitingConfirmation s" "intake s \<noteq> None"
    using handleSend_confirms [of s now] by simp_all
next
  assume a: "reachable rt s \<and> awaitingConfirmation s \<and> test_exact_i ''no'' (trim (input s))"
  with reachable_exclusive [of rt s] have nc: "\<not> intakeConfirmed s" by simp
  from a reachable_awaiting_idle [of rt s] have nl: "\<not> isLoading s" by simp
  from a nc nl have eq: "handleSend now s
     = (reply now (trim (input s)) reenter_text Explanation
          ((titled s)\<lparr>intake := None, awaitingConfirmation := False\<rparr>), None)"
    by (intro handleSend_no) simp_all
  from nc show "intake (fst (handleSend now s)) = None"
    "\<not> awaitingConfirmation (fst (handleSend now s))"
    "\<not> intakeConfirmed (fst (handleSend now s))"
    "snd (handleSend now s) = None"
    by (simp_all add: eq)
qed (simp_all add: cancelFileOps_def cancelMilestoneOps_def http_error_toast_def
       connection_error_def)

theorem intake_confirmation_machine_witness:
  "reachable engine (parsed_panel\<lparr>input := '' No ''\<rparr>)
   \<and> awaitingConfirmation (parsed_panel\<lparr>input := '' No ''\<rparr>)
   \<and> test_exact_i ''no'' (trim (input (parsed_panel\<lparr>input := '' No ''\<rparr>)))
   \<and> \<not> intakeConfirmed (parsed_panel\<lparr>input := '' No ''\<rparr>)
   \<and> intake (parsed_panel\<lparr>input := '' No ''\<rparr>) = Some todo_intake
   \<and> intake (fst (handleSend 2 (parsed_panel\<lparr>input := '' No ''\<rparr>))) = None
   \<and> \<not> awaitingConfirmation (fst (handleSend 2 (parsed_panel\<lparr>input := '' No ''\<rparr>)))
   \<and> \<not> intakeConfirmed (parsed_panel\<lparr>input := ''YES''\<rparr>)
   \<and> intakeConfirmed (fst (handleSend 2 (parsed_panel\<lparr>input := ''YES''\<rparr>)))
   \<and> test_exact_i ''yes'' (trim (input (parsed_panel\<lparr>input := ''YES''\<rparr>)))"
proof -
  let ?no = "parsed_panel\<lparr>input := '' No ''\<rparr>"
  let ?yes = "parsed_panel\<lparr>input := ''YES''\<rparr>"
  have r: "reachable engine ?no"
    by (rule reachable.typing) (rule reachable_parsed_panel)
  have a: "awaitingConfirmation ?no" by simp
  have "test_exact_i ''no'' (trim '' No '')" by code_simp
  then have n: "test_exact_i ''no'' (trim (input ?no))" by simp
  have i: "intake ?no = Some todo_intake" by simp
  have "test_exact_i ''yes'' (trim ''YES'')" by code_simp
  then have ty: "test_exact_i ''yes'' (trim (input ?yes))" by simp
  have y0: "\<not> intakeConfirmed ?yes" by simp
  have y: "intakeConfirmed (fst (handleSend 2 ?yes))"
    by (rule handleSend_yes(1) [OF _ y0 _ ty]) simp_all
  note th = intake_confirmation_machine [of engine ?no 2]
  note th2 = intake_confirmation_machine [of engine ?yes 2]
  from r a have c: "\<not> intakeConfirmed ?no"
    using th [THEN conjunct1] by blast
  have d: "intake (fst (handleSend 2 ?no)) = None
    \<and> \<not> awaitingConfirmation (fst (handleSend 2 ?no))
    \<and> \<not> intakeConfirmed (fst (handleSend 2 ?no))
    \<and> snd (handleSend 2 ?no) = None"
    by (rule th [THEN conjunct2, THEN conjunct2, THEN conjunct2, THEN conjunct2, THEN conjunct2, THEN conjunct2, THEN conjunct2, THEN conjunct2, THEN conjunct2, THEN conjunct2, THEN conjunct2, THEN conjunct2, THEN conjunct2, rule_format, OF conjI [OF r conjI [OF a n]]])
  have e: "test_exact_i ''yes'' (trim (input ?yes))"
    using th2 [THEN conjunct2, THEN conjunct1, rule_format, OF conjI [OF y0 y]] by simp
  show ?thesis
    by (intro conjI) (rule r a n c i d [THEN conjunct1] d [THEN conjunct2, THEN conjunct1] y0 y e)+
qed

section \<open>The short-circuit for code requests\<close>

lemma confirmed_panel_fields [simp]:
  "intakeConfirmed confirmed_panel" "\<not> isLoading confirmed_panel"
proof -
  let ?s = "parsed_panel\<lparr>input := ''yes''\<rparr>"
  have "test_exact_i ''yes'' (trim ''yes'')" by code_simp
  then have y: "test_exact_i ''yes'' (trim (input ?s))" by simp
  show "intakeConfirmed confirmed_panel"
    unfolding confirmed_panel_def by (rule handleSend_yes(1) [OF _ _ _ y]) simp_all
  show "\<not> isLoading confirmed_panel"
    unfolding confirmed_panel_def by (simp add: handleSend_loading)
qed






section \<open>Messages received while a confirmation is awaited\<close>

lemma handleSend_awaiting:
  assumes "awaitingConfirmation s" and "\<not> intakeConfirmed s" and "\<not> isLoading s"
    and "trim (input s) \<noteq> []" and "\<not> is_code_request (trim (input s))"
  shows "parseIntakeFromText (trim (input s)) = Some p \<Longrightarrow>
           handleSend now s
             = (reply now (trim (input s)) (parsed_intake_text p) Question
                  ((titled s)\<lparr>intake := Some p, awaitingConfirmation := True\<rparr>), None)"
    and "parseIntakeFromText (trim (input s)) = None \<Longrightarrow>
           \<not> test_exact_i ''yes'' (trim (input s)) \<Longrightarrow>
           \<not> test_exact_i ''no'' (trim (input s)) \<Longrightarrow>
           handleSend now s = (reply now (trim (input s)) helper_text Question (titled s), None)"
  using assms by (simp_all add: handleSend_handled intake_step_def)

lemma blog_text_parsed:
  "trim blog_text \<noteq> []" "\<not> is_code_request (trim blog_text)"
  "parseIntakeFromText (trim blog_text) = Some blog_intake"
  "\<not> test_exact_i ''yes'' (trim blog_text)" "\<not> test_exact_i ''no'' (trim blog_text)"
  by code_simp+

lemma maybe_text:
  "trim ''maybe'' \<noteq> []" "\<not> is_code_request (trim ''maybe'')"
  "parseIntakeFromText (trim ''maybe'') = None"
  "\<not> test_exact_i ''yes'' (trim ''maybe'')" "\<not> test_exact_i ''no'' (trim ''maybe'')"
  by code_simp+

text \<open>
  Claim C5 as it is stated does not hold. In its block for an unconfirmed intake,
  \<open>handleSend\<close> first tries to parse the message as an intake, whether a confirmation is
  awaited or not: a message with the four fields, sent while the record \<open>todo_intake\<close>
  awaits its confirmation, replaces that record. And a message that is neither
  \<^verbatim>\<open>yes\<close>, \<^verbatim>\<open>no\<close> nor an intake is answered with the text of the required format, which
  is not the confirmation question that was asked.
\<close>

theorem awaiting_other_message_counterexample:
  "reachable engine (parsed_panel\<lparr>input := blog_text\<rparr>)
   \<and> awaitingConfirmation (parsed_panel\<lparr>input := blog_text\<rparr>)
   \<and> intake (parsed_panel\<lparr>input := blog_text\<rparr>) = Some todo_intake
   \<and> \<not> test_exact_i ''yes'' (trim (input (parsed_panel\<lparr>input := blog_text\<rparr>)))
   \<and> \<not> test_exact_i ''no'' (trim (input (parsed_panel\<lparr>input := blog_text\<rparr>)))
   \<and> intake (fst (handleSend 2 (parsed_panel\<lparr>input := blog_text\<rparr>))) = Some blog_intake
   \<and> blog_intake \<noteq> todo_intake
   \<and> \<not> test_exact_i ''yes'' (trim (input (parsed_panel\<lparr>input := ''maybe''\<rparr>)))
   \<and> \<not> test_exact_i ''no'' (trim (input (parsed_panel\<lparr>input := ''maybe''\<rparr>)))
   \<and> msg_content (last (messages (fst (handleSend 2 (parsed_panel\<lparr>input := ''maybe''\<rparr>)))))
       = helper_text
   \<and> msg_content (last (messages parsed_panel)) = parsed_intake_text todo_intake
   \<and> helper_text \<noteq> parsed_intake_text todo_intake"
proof -
  let ?b = "parsed_panel\<lparr>input := blog_text\<rparr>"
  let ?m = "parsed_panel\<lparr>input := ''maybe''\<rparr>"
  have r: "reachable engine ?b" by (rule reachable.typing) (rule reachable_parsed_panel)
  have a: "awaitingConfirmation ?b" by simp
  have i: "intake ?b = Some todo_intake" by simp
  have y: "\<not> test_exact_i ''yes'' (trim (input ?b))" using blog_text_parsed(4) by simp
  have n: "\<not> test_exact_i ''no'' (trim (input ?b))" using blog_text_parsed(5) by simp
  have "handleSend 2 ?b
      = (reply 2 (trim (input ?b)) (parsed_intake_text blog_intake) Question
           ((titled ?b)\<lparr>intake := Some blog_intake, awaitingConfirmation := True\<rparr>), None)"
    by (rule handleSend_awaiting(1)) (simp_all add: blog_text_parsed)
  then have b: "intake (fst (handleSend 2 ?b)) = Some blog_intake" by simp
  have d: "blog_intake \<noteq> todo_intake" by (simp add: blog_intake_def todo_intake_def)
  have ym: "\<not> test_exact_i ''yes'' (trim (input ?m))" using maybe_text(4) by simp
  have nm: "\<not> test_exact_i ''no'' (trim (input ?m))" using maybe_text(5) by simp
  have "handleSend 2 ?m = (reply 2 (trim (input ?m)) helper_text Question (titled ?m), None)"
    by (rule handleSend_awaiting(2)) (simp_all add: maybe_text)
  then have h: "msg_content (last (messages (fst (handleSend 2 ?m)))) = helper_text"
    by (simp add: assistant_message_def)
  have q: "msg_content (last (messages parsed_panel)) = parsed_intake_text todo_intake"
    by (subst parsed_panel_reply) (simp add: assistant_message_def)
  have "length helper_text \<noteq> length (parsed_intake_text todo_intake)" by code_simp
  then have e: "helper_text \<noteq> parsed_intake_text todo_intake" by auto
  show ?thesis
    by (intro conjI) (rule r a i y n b d ym nm h q e)+
qed

text \<open>
  Claim C5, amended. In a reachable state that awaits the confirmation of a parsed
  intake, a message whose trimmed text is not empty and is neither \<^verbatim>\<open>yes\<close> nor \<^verbatim>\<open>no\<close>
  up to letter case is answered at once, and nothing is streamed:

  \<^item> when a code-request pattern matches it, with the refusal; the held record stays and
    the confirmation is still awaited;
  \<^item> otherwise, when it parses as an intake with its four fields, the parsed record
    replaces the held one, and the confirmation of the new record is asked and awaited;
  \<^item> otherwise the held record stays, the confirmation is still awaited, and the answer
    is the text of the required format, which ends with the request to confirm the
    parsed intake with \<^verbatim>\<open>yes\<close> or \<^verbatim>\<open>no\<close>.
\<close>

theorem awaiting_other_message:
  assumes "reachable rt s" and "awaitingConfirmation s" and "trim (input s) \<noteq> []"
    and "\<not> test_exact_i ''yes'' (trim (input s))"
    and "\<not> test_exact_i ''no'' (trim (input s))"
  shows "snd (handleSend now s) = None
     \<and> \<not> intakeConfirmed (fst (handleSend now s))
     \<and> awaitingConfirmation (fst (handleSend now s))
     \<and> (is_code_request (trim (input s)) \<longrightarrow>
          intake (fst (handleSend now s)) = intake s
          \<and> messages (fst (handleSend now s))
              = messages s @ [user_message now (trim (input s)),
                              assistant_message now refusal_text Warning])
     \<and> (\<not> is_code_request (trim (input s)) \<longrightarrow>
          (\<forall>p. parseIntakeFromText (trim (input s)) = Some p \<longrightarrow>
             intake (fst (handleSend now s)) = Some p
             \<and> messages (fst (handleSend now s))
                 = messages s @ [user_message now (trim (input s)),
                                 assistant_message (now + 1) (parsed_intake_text p) Question])
          \<and> (parseIntakeFromText (trim (input s)) = None \<longrightarrow>
             intake (fst (handleSend now s)) = intake s
             \<and> messages (fst (handleSend now s))
                 = messages s @ [user_message now (trim (input s)),
                                 assistant_message (now + 1) helper_text Question]))"
proof -
  from reachable_exclusive [OF assms(1)] assms(2) have nc: "\<not> intakeConfirmed s" by simp
  from reachable_awaiting_idle [OF assms(1,2)] have nl: "\<not> isLoading s" .
  show ?thesis
  proof (cases "is_code_request (trim (input s))")
    case True
    with assms(2,3) nc nl show ?thesis by (simp add: handleSend_handled)
  next
    case ncr: False
    show ?thesis
    proof (cases "parseIntakeFromText (trim (input s))")
      case None
      from handleSend_awaiting(2) [OF assms(2) nc nl assms(3) ncr None assms(4,5), of now]
        ncr None assms(2) nc
      show ?thesis by simp
    next
      case (Some p)
      from handleSend_awaiting(1) [OF assms(2) nc nl assms(3) ncr Some, of now] ncr Some nc
      show ?thesis by simp
    qed
  qed
qed

theorem awaiting_other_message_witness:
  "reachable engine (parsed_panel\<lparr>input := ''maybe''\<rparr>)
   \<and> awaitingConfirmation (parsed_panel\<lparr>input := ''maybe''\<rparr>)
   \<and> trim (input (parsed_panel\<lparr>input := ''maybe''\<rparr>)) \<noteq> []
   \<and> \<not> test_exact_i ''yes'' (trim (input (parsed_panel\<lparr>input := ''maybe''\<rparr>)))
   \<and> \<not> test_exact_i ''no'' (trim (input (parsed_panel\<lparr>input := ''maybe''\<rparr>)))
   \<and> \<not> is_code_request (trim (input (parsed_panel\<lparr>input := ''maybe''\<rparr>)))
   \<and> parseIntakeFromText (trim (input (parsed_panel\<lparr>input := ''maybe''\<rparr>))) = None
   \<and> snd (handleSend 2 (parsed_panel\<lparr>input := ''maybe''\<rparr>)) = None
   \<and> awaitingConfirmation (fst (handleSend 2 (parsed_panel\<lparr>input := ''maybe''\<rparr>)))
   \<and> intake (fst (handleSend 2 (parsed_panel\<lparr>input := ''maybe''\<rparr>))) = Some todo_intake"
proof -
  let ?m = "parsed_panel\<lparr>input := ''maybe''\<rparr>"
  have r: "reachable engine ?m" by (rule reachable.typing) (rule reachable_parsed_panel)
  have a: "awaitingConfirmation ?m" by simp
  have t: "trim (input ?m) \<noteq> []" using maybe_text(1) by simp
  have y: "\<not> test_exact_i ''yes'' (trim (input ?m))" using maybe_text(4) by simp
  have n: "\<not> test_exact_i ''no'' (trim (input ?m))" using maybe_text(5) by simp
  have c: "\<not> is_code_request (trim (input ?m))" using maybe_text(2) by simp
  have p: "parseIntakeFromText (trim (input ?m)) = None" using maybe_text(3) by simp
  note th = awaiting_other_message [OF r a t y n, of 2]
  have s: "snd (handleSend 2 ?m) = None" by (rule th [THEN conjunct1])
  have w: "awaitingConfirmation (fst (handleSend 2 ?m))"
    by (rule th [THEN conjunct2, THEN conjunct2, THEN conjunct1])
  have "intake (fst (handleSend 2 ?m)) = intake ?m"
    by (rule th [THEN conjunct2, THEN conjunct2, THEN conjunct2, THEN conjunct2, rule_format,
          OF c, THEN conjunct2, rule_format, OF p, THEN conjunct1])
  then have i: "intake (fst (handleSend 2 ?m)) = Some todo_intake" by simp
  show ?thesis
    by (intro conjI) (rule r a t y n c p s w i)+
qed

section \<open>The mentor report\<close>

lemma finalize_steps_reports [simp]:
  "mentor_reports (stage_file_ops f s) = mentor_reports s"
  "submissionId (stage_file_ops f s) = submissionId s"
  "mentor_reports (stage_milestone_ops f s) = mentor_reports s"
  "submissionId (stage_milestone_ops f s) = submissionId s"
  "mentor_reports (store_assistant c f m s) = mentor_reports s"
  "submissionId (store_assistant c f m s) = submissionId s"
  by (simp_all add: stage_file_ops_def stage_milestone_ops_def store_assistant_def)



lemma begin_request_reports [simp]:
  "mentor_reports (begin_request now s tx) = mentor_reports s"
  "submissionId (begin_request now s tx) = submissionId s"
  by (simp_all add: begin_request_def Let_def)


lemma apply_ops_reports [simp]:
  "mentor_reports (snd (applyFileOps rt fs sv now (w, s) ops)) = mentor_reports s"
  "mentor_reports (snd (applyMilestoneOps rt sv (w, s) ops)) = mentor_reports s"
  by (simp_all add: applyFileOps_def applyMilestoneOps_def split_def milestone_toast_def Let_def)





end
